theory Spec2Isabelle
  imports Main "HOL-Library.AList" "HOL-Library.Sublist"
begin

section \<open>Python values used by the plugin\<close>

text \<open>
  The plugin (\<^verbatim>\<open>certbot_regru_freebsd/dns.py\<close>) works on Python strings, on dictionaries
  and on the JSON values that \<^verbatim>\<open>response.json()\<close> returns. A Python \<^verbatim>\<open>str\<close> is modelled
  as a \<^typ>\<open>string\<close>, each \<^typ>\<open>char\<close> standing for the code point of the same number
  (code points below 256). A \<^verbatim>\<open>dict\<close> is an association list with distinct keys in
  insertion order: \<^verbatim>\<open>d[k] = v\<close> is \<^const>\<open>AList.update\<close> (an existing key keeps its
  place, a new key goes to the end), \<^verbatim>\<open>d[k]\<close> is \<^const>\<open>map_of\<close>.
  Floating-point JSON numbers are left out of the model.
\<close>

datatype json =
    JNull
  | JBool bool
  | JInt int
  | JString string
  | JArray "json list"
  | JObject "(string \<times> json) list"

text \<open>A value handed to \<^verbatim>\<open>str.format\<close> or to a logging call.\<close>

datatype pyval =
    PStr string
  | PInt int
  | PForm "(string \<times> string) list"
  | PJson json

text \<open>
  A formatted message: the characters of the template and, in place of each replacement
  field, the argument whose \<^verbatim>\<open>str()\<close> Python inserts there.
\<close>

datatype piece = Ch char | Val pyval

type_synonym message = "piece list"

text \<open>
  The response of \<^verbatim>\<open>requests\<close>: its status code, its body \<^verbatim>\<open>text\<close>, and what
  \<^verbatim>\<open>response.json()\<close> decodes the body to (\<^const>\<open>None\<close> for a body that is not JSON).
\<close>

record http_response =
  status_code :: int
  text_body :: string
  json_body :: "json option"

datatype py_exception =
    RequestException "http_response option"
  | PluginError message
  | IndexError
  | KeyError
  | TypeError
  | ValueError
  | AttributeError
  | OtherError

text \<open>Truthiness of an optional string: \<^verbatim>\<open>None\<close> and \<^verbatim>\<open>''\<close> are false.\<close>

fun truthy :: "string option \<Rightarrow> bool" where
  "truthy None = False"
| "truthy (Some s) = (s \<noteq> [])"

subsection \<open>\<^verbatim>\<open>str.format\<close>\<close>

text \<open>
  The templates of the plugin use the replacement fields \<^verbatim>\<open>{}\<close> (automatic numbering) and
  \<^verbatim>\<open>{0}\<close> (a one-digit index). \<^verbatim>\<open>format\<close> raises \<^verbatim>\<open>IndexError\<close> when a field asks for
  a positional argument that was not passed, and \<^verbatim>\<open>ValueError\<close> for a single brace or
  when the two numberings are mixed; \<^verbatim>\<open>{{\<close> and \<^verbatim>\<open>}}\<close> stand for one brace. Fields with a
  name, a longer index, a conversion or a format specification do not occur in the plugin;
  for them the model answers \<^verbatim>\<open>OtherError\<close>.

  \<open>auto\<close> is the number of \<^verbatim>\<open>{}\<close> fields seen so far, \<open>manual\<close> tells whether an
  indexed field was seen.
\<close>

definition digit_val :: "char \<Rightarrow> nat option" where
  "digit_val c =
     (let n = (of_char c :: nat) in if 48 \<le> n \<and> n \<le> 57 then Some (n - 48) else None)"

fun format_from :: "nat \<Rightarrow> bool \<Rightarrow> string \<Rightarrow> pyval list \<Rightarrow> py_exception + message" where
  "format_from auto manual [] args = Inr []"
| "format_from auto manual (c # cs) args =
     (if c = CHR ''{'' then
        (case cs of
           [] \<Rightarrow> Inl ValueError
         | d # cs' \<Rightarrow>
             (if d = CHR ''{'' then
                (case format_from auto manual cs' args of
                   Inl e \<Rightarrow> Inl e
                 | Inr m \<Rightarrow> Inr (Ch c # m))
              else if d = CHR ''}'' then
                (if manual then Inl ValueError
                 else if auto < length args then
                   (case format_from (Suc auto) manual cs' args of
                      Inl e \<Rightarrow> Inl e
                    | Inr m \<Rightarrow> Inr (Val (args ! auto) # m))
                 else Inl IndexError)
              else
                (case (digit_val d, cs') of
                   (Some i, e # cs'') \<Rightarrow>
                     (if e = CHR ''}'' then
                        (if 0 < auto then Inl ValueError
                         else if i < length args then
                           (case format_from auto True cs'' args of
                              Inl e \<Rightarrow> Inl e
                            | Inr m \<Rightarrow> Inr (Val (args ! i) # m))
                         else Inl IndexError)
                      else Inl OtherError)
                 | _ \<Rightarrow> Inl OtherError)))
      else if c = CHR ''}'' then
        (case cs of
           [] \<Rightarrow> Inl ValueError
         | d # cs' \<Rightarrow>
             (if d = CHR ''}'' then
                (case format_from auto manual cs' args of
                   Inl e \<Rightarrow> Inl e
                 | Inr m \<Rightarrow> Inr (Ch c # m))
              else Inl ValueError))
      else
        (case format_from auto manual cs args of
           Inl e \<Rightarrow> Inl e
         | Inr m \<Rightarrow> Inr (Ch c # m)))"

definition format :: "string \<Rightarrow> pyval list \<Rightarrow> py_exception + message" where
  "format template args = format_from 0 False template args"

text \<open>A message carries a value when the value was formatted into it.\<close>

definition carries :: "message \<Rightarrow> pyval \<Rightarrow> bool" where
  "carries m v = (Val v \<in> set m)"

section \<open>Credential validation\<close>

text \<open>
  \<^verbatim>\<open>CredentialsConfiguration\<close>: \<^verbatim>\<open>credentials.conf(name)\<close> is the option of that name or
  \<^verbatim>\<open>None\<close>, \<^verbatim>\<open>credentials.confobj.filename\<close> the path of the INI file.
\<close>

record credentials =
  conf :: "string \<Rightarrow> string option"
  filename :: string

text \<open>
  The filesystem is the set of paths that exist. \<^verbatim>\<open>os.path.exists('')\<close> is false on every
  filesystem.
\<close>

definition path_exists :: "string set \<Rightarrow> string \<Rightarrow> bool" where
  "path_exists fs p = (p \<noteq> [] \<and> p \<in> fs)"

text \<open>
  \<^verbatim>\<open>Authenticator._validate_credentials\<close>. The second operand of each \<^verbatim>\<open>and\<close> is evaluated
  only when the first is true, so \<^verbatim>\<open>os.path.exists\<close> is only ever called on a non-empty
  string. The argument of \<^verbatim>\<open>raise\<close> is evaluated first: an exception of \<^verbatim>\<open>format\<close> replaces
  the \<^verbatim>\<open>PluginError\<close>.
\<close>

definition validate_credentials :: "string set \<Rightarrow> credentials \<Rightarrow> py_exception + unit" where
  "validate_credentials fs creds =
     (let password = conf creds ''password'';
          username = conf creds ''username'';
          cert = conf creds ''cert'';
          key = conf creds ''key''
      in if \<not> truthy password \<or> \<not> truthy username then
           (case format ''{}: Either password and username are required. (see {})''
                   [PStr (filename creds)] of
              Inl e \<Rightarrow> Inl e
            | Inr m \<Rightarrow> Inl (PluginError m))
         else if truthy cert \<and> truthy key
                 \<and> (\<not> path_exists fs (the cert) \<or> \<not> path_exists fs (the key)) then
           (case format ''{}: Either cert and key not found. (see {})''
                   [PStr (filename creds)] of
              Inl e \<Rightarrow> Inl e
            | Inr m \<Rightarrow> Inl (PluginError m))
         else Inr ())"

section \<open>Strings, slices and JSON serialisation\<close>

text \<open>\<^verbatim>\<open>s.split(sep)\<close> for a one-character separator, and \<^verbatim>\<open>sep.join(xs)\<close>.\<close>

fun split :: "string \<Rightarrow> char \<Rightarrow> string list" where
  "split [] sep = [[]]"
| "split (c # cs) sep =
     (if c = sep then [] # split cs sep
      else (case split cs sep of
              [] \<Rightarrow> [[c]]
            | p # ps \<Rightarrow> (c # p) # ps))"

fun join :: "string \<Rightarrow> string list \<Rightarrow> string" where
  "join sep [] = []"
| "join sep [x] = x"
| "join sep (x # y # ys) = x @ sep @ join sep (y # ys)"

text \<open>
  Slices \<^verbatim>\<open>xs[:i]\<close> and \<^verbatim>\<open>xs[i:]\<close>: a negative bound counts from the end, and every
  bound is clipped to the list.
\<close>

definition slice_bound :: "nat \<Rightarrow> int \<Rightarrow> nat" where
  "slice_bound len i = (if i < 0 then nat (max 0 (int len + i)) else min (nat i) len)"

definition slice_to :: "'a list \<Rightarrow> int \<Rightarrow> 'a list" where
  "slice_to xs i = take (slice_bound (length xs) i) xs"

definition slice_from :: "'a list \<Rightarrow> int \<Rightarrow> 'a list" where
  "slice_from xs i = drop (slice_bound (length xs) i) xs"

subsection \<open>\<^verbatim>\<open>json.dumps\<close>\<close>

text \<open>
  \<^verbatim>\<open>json.dumps\<close> with its default arguments: \<^verbatim>\<open>ensure_ascii\<close> is on, the separators
  are \<^verbatim>\<open>', '\<close> and \<^verbatim>\<open>': '\<close>. In a string, the quote, the backslash and the control
  characters with a short escape are written with it; every other character outside
  \<^verbatim>\<open>' '\<close>..\<^verbatim>\<open>'~'\<close> is written \<^verbatim>\<open>\u00xx\<close> with lower-case hexadecimal digits.
\<close>

definition hex_digit :: "nat \<Rightarrow> char" where
  "hex_digit n = (if n < 10 then char_of (48 + n) else char_of (87 + n))"

definition escape_char :: "char \<Rightarrow> string" where
  "escape_char c =
     (if c = CHR 0x22 then [CHR 0x5C, CHR 0x22]
      else if c = CHR 0x5C then [CHR 0x5C, CHR 0x5C]
      else if c = CHR 0x08 then [CHR 0x5C, CHR ''b'']
      else if c = CHR 0x0C then [CHR 0x5C, CHR ''f'']
      else if c = CHR 0x0A then [CHR 0x5C, CHR ''n'']
      else if c = CHR 0x0D then [CHR 0x5C, CHR ''r'']
      else if c = CHR 0x09 then [CHR 0x5C, CHR ''t'']
      else if 32 \<le> (of_char c :: nat) \<and> (of_char c :: nat) \<le> 126 then [c]
      else [CHR 0x5C, CHR ''u'', CHR ''0'', CHR ''0'',
            hex_digit (of_char c div 16), hex_digit (of_char c mod 16)])"

definition encode_string :: "string \<Rightarrow> string" where
  "encode_string s = CHR 0x22 # concat (map escape_char s) @ [CHR 0x22]"

fun str_nat :: "nat \<Rightarrow> string" where
  "str_nat n = (if n < 10 then [char_of (48 + n)] else str_nat (n div 10) @ [char_of (48 + n mod 10)])"

definition str_int :: "int \<Rightarrow> string" where
  "str_int i = (if i < 0 then CHR ''-'' # str_nat (nat (- i)) else str_nat (nat i))"

fun dumps :: "json \<Rightarrow> string" where
  "dumps JNull = ''null''"
| "dumps (JBool b) = (if b then ''true'' else ''false'')"
| "dumps (JInt i) = str_int i"
| "dumps (JString s) = encode_string s"
| "dumps (JArray xs) = ''['' @ join '', '' (map dumps xs) @ '']''"
| "dumps (JObject kvs) =
     ''{'' @ join '', '' (map (\<lambda>kv. encode_string (fst kv) @ '': '' @ dumps (snd kv)) kvs) @ ''}''"

declare str_nat.simps [simp del]

subsection \<open>\<^verbatim>\<open>json.loads\<close>\<close>

text \<open>
  \<^verbatim>\<open>json.loads\<close> with its default arguments, after the decoder of the standard library
  (\<^verbatim>\<open>json/decoder.py\<close>, \<^verbatim>\<open>json/scanner.py\<close>): \<^verbatim>\<open>scanstring\<close> reads a string after its opening
  quote, \<^verbatim>\<open>scan_once\<close> reads one value, \<^verbatim>\<open>JSONArray\<close> and \<^verbatim>\<open>JSONObject\<close> read the items
  of an array and of an object, and \<^verbatim>\<open>decode\<close> skips the whitespace around the value and
  rejects anything after it. The result is \<^const>\<open>None\<close> where Python raises
  \<^verbatim>\<open>JSONDecodeError\<close>.

  Outside the model, and answered by \<^const>\<open>None\<close>: numbers with a fraction or an exponent,
  \<^verbatim>\<open>NaN\<close> and \<^verbatim>\<open>Infinity\<close>, and \<^verbatim>\<open>\uXXXX\<close> escapes of code points from 256 on.
\<close>

definition is_ws :: "char \<Rightarrow> bool" where
  "is_ws c = (c = CHR '' '' \<or> c = CHR 0x09 \<or> c = CHR 0x0A \<or> c = CHR 0x0D)"

definition skip_ws :: "string \<Rightarrow> string" where
  "skip_ws s = dropWhile is_ws s"

definition hex_val :: "char \<Rightarrow> nat option" where
  "hex_val c =
     (let n = (of_char c :: nat)
      in if 48 \<le> n \<and> n \<le> 57 then Some (n - 48)
         else if 97 \<le> n \<and> n \<le> 102 then Some (n - 87)
         else if 65 \<le> n \<and> n \<le> 70 then Some (n - 55)
         else None)"

text \<open>\<^verbatim>\<open>_decode_uXXXX\<close>: the four hexadecimal digits after \<^verbatim>\<open>\u\<close>.\<close>

definition decode_uXXXX :: "char \<Rightarrow> char \<Rightarrow> char \<Rightarrow> char \<Rightarrow> nat option" where
  "decode_uXXXX a b c d =
     (case (hex_val a, hex_val b, hex_val c, hex_val d) of
        (Some x3, Some x2, Some x1, Some x0) \<Rightarrow> Some (((x3 * 16 + x2) * 16 + x1) * 16 + x0)
      | _ \<Rightarrow> None)"

text \<open>The table \<^verbatim>\<open>BACKSLASH\<close> of the one-letter escapes.\<close>

definition backslash :: "char \<Rightarrow> char option" where
  "backslash e =
     (if e = CHR 0x22 then Some (CHR 0x22)
      else if e = CHR 0x5C then Some (CHR 0x5C)
      else if e = CHR ''/'' then Some (CHR ''/'')
      else if e = CHR ''b'' then Some (CHR 0x08)
      else if e = CHR ''f'' then Some (CHR 0x0C)
      else if e = CHR ''n'' then Some (CHR 0x0A)
      else if e = CHR ''r'' then Some (CHR 0x0D)
      else if e = CHR ''t'' then Some (CHR 0x09)
      else None)"

fun scanstring :: "string \<Rightarrow> (string \<times> string) option" where
  "scanstring [] = None"
| "scanstring (c # cs) =
     (if c = CHR 0x22 then Some ([], cs)
      else if c = CHR 0x5C then
        (case cs of
           [] \<Rightarrow> None
         | esc # cs1 \<Rightarrow>
             (if esc = CHR ''u'' then
                (case cs1 of
                   h3 # h2 # h1 # h0 # cs2 \<Rightarrow>
                     (case decode_uXXXX h3 h2 h1 h0 of
                        None \<Rightarrow> None
                      | Some uni \<Rightarrow>
                          (if uni < 256 then
                             (case scanstring cs2 of
                                None \<Rightarrow> None
                              | Some (str, rest) \<Rightarrow> Some (char_of uni # str, rest))
                           else None))
                 | _ \<Rightarrow> None)
              else
                (case backslash esc of
                   None \<Rightarrow> None
                 | Some ch \<Rightarrow>
                     (case scanstring cs1 of
                        None \<Rightarrow> None
                      | Some (str, rest) \<Rightarrow> Some (ch # str, rest)))))
      else if (of_char c :: nat) < 32 then None
      else
        (case scanstring cs of
           None \<Rightarrow> None
         | Some (str, rest) \<Rightarrow> Some (c # str, rest)))"

text \<open>
  \<^verbatim>\<open>NUMBER_RE\<close> and \<^verbatim>\<open>int\<close>: an optional minus sign, then \<^verbatim>\<open>0\<close> or a digit from 1 to 9
  followed by all the digits that come.
\<close>

definition is_digit :: "char \<Rightarrow> bool" where
  "is_digit c = (48 \<le> (of_char c :: nat) \<and> (of_char c :: nat) \<le> 57)"

definition int_of_digits :: "string \<Rightarrow> nat" where
  "int_of_digits ds = foldl (\<lambda>a c. 10 * a + (of_char c - 48)) 0 ds"

definition float_follows :: "string \<Rightarrow> bool" where
  "float_follows r =
     (case r of [] \<Rightarrow> False | c # _ \<Rightarrow> c = CHR ''.'' \<or> c = CHR ''e'' \<or> c = CHR ''E'')"

definition match_digits :: "string \<Rightarrow> (nat \<times> string) option" where
  "match_digits s =
     (case s of
        [] \<Rightarrow> None
      | d # ds \<Rightarrow>
          (if \<not> is_digit d then None
           else if d = CHR ''0'' then Some (0, ds)
           else Some (int_of_digits (d # takeWhile is_digit ds), dropWhile is_digit ds)))"

definition match_number :: "string \<Rightarrow> (int \<times> string) option" where
  "match_number s =
     (case s of
        [] \<Rightarrow> None
      | c # cs \<Rightarrow>
          (if c = CHR ''-'' then
             (case match_digits cs of
                None \<Rightarrow> None
              | Some (n, r) \<Rightarrow> if float_follows r then None else Some (- int n, r))
           else
             (case match_digits s of
                None \<Rightarrow> None
              | Some (n, r) \<Rightarrow> if float_follows r then None else Some (int n, r))))"

text \<open>\<^verbatim>\<open>dict(pairs)\<close>: a key that comes again keeps its place and takes the later value.\<close>

definition dict_of_pairs :: "(string \<times> json) list \<Rightarrow> (string \<times> json) list" where
  "dict_of_pairs pairs = foldl (\<lambda>d kv. AList.update (fst kv) (snd kv) d) [] pairs"

text \<open>
  The three mutually recursive readers. Every call of one from another takes one unit of
  \<open>fuel\<close>; \<^const>\<open>None\<close> is also the answer when the fuel runs out. \<open>JSONArray\<close> starts at
  the first value of a non-empty array, \<open>JSONObject\<close> after the opening quote of a key.
\<close>

fun scan_once :: "nat \<Rightarrow> string \<Rightarrow> (json \<times> string) option"
and JSONArray :: "nat \<Rightarrow> string \<Rightarrow> (json list \<times> string) option"
and JSONObject :: "nat \<Rightarrow> string \<Rightarrow> ((string \<times> json) list \<times> string) option" where
  "scan_once 0 s = None"
| "scan_once (Suc fuel) [] = None"
| "scan_once (Suc fuel) (c # cs) =
     (if c = CHR 0x22 then
        (case scanstring cs of
           None \<Rightarrow> None
         | Some (str, rest) \<Rightarrow> Some (JString str, rest))
      else if c = CHR ''{'' then
        (case skip_ws cs of
           [] \<Rightarrow> None
         | c' # cs' \<Rightarrow>
             (if c' = CHR ''}'' then Some (JObject [], cs')
              else if c' = CHR 0x22 then
                (case JSONObject fuel cs' of
                   None \<Rightarrow> None
                 | Some (pairs, rest) \<Rightarrow> Some (JObject (dict_of_pairs pairs), rest))
              else None))
      else if c = CHR ''['' then
        (case skip_ws cs of
           [] \<Rightarrow> None
         | c' # cs' \<Rightarrow>
             (if c' = CHR '']'' then Some (JArray [], cs')
              else
                (case JSONArray fuel (c' # cs') of
                   None \<Rightarrow> None
                 | Some (vs, rest) \<Rightarrow> Some (JArray vs, rest))))
      else if c = CHR ''n'' \<and> take 3 cs = ''ull'' then Some (JNull, drop 3 cs)
      else if c = CHR ''t'' \<and> take 3 cs = ''rue'' then Some (JBool True, drop 3 cs)
      else if c = CHR ''f'' \<and> take 4 cs = ''alse'' then Some (JBool False, drop 4 cs)
      else
        (case match_number (c # cs) of
           None \<Rightarrow> None
         | Some (i, rest) \<Rightarrow> Some (JInt i, rest)))"
| "JSONArray 0 s = None"
| "JSONArray (Suc fuel) s =
     (case scan_once fuel s of
        None \<Rightarrow> None
      | Some (v, r) \<Rightarrow>
          (case skip_ws r of
             [] \<Rightarrow> None
           | c # r' \<Rightarrow>
               (if c = CHR '']'' then Some ([v], r')
                else if c = CHR '','' then
                  (case JSONArray fuel (skip_ws r') of
                     None \<Rightarrow> None
                   | Some (vs, rest) \<Rightarrow> Some (v # vs, rest))
                else None)))"
| "JSONObject 0 s = None"
| "JSONObject (Suc fuel) s =
     (case scanstring s of
        None \<Rightarrow> None
      | Some (k, r) \<Rightarrow>
          (case skip_ws r of
             [] \<Rightarrow> None
           | c # r1 \<Rightarrow>
               (if c \<noteq> CHR '':'' then None
                else
                  (case scan_once fuel (skip_ws r1) of
                     None \<Rightarrow> None
                   | Some (v, r2) \<Rightarrow>
                       (case skip_ws r2 of
                          [] \<Rightarrow> None
                        | c' # r3 \<Rightarrow>
                            (if c' = CHR ''}'' then Some ([(k, v)], r3)
                             else if c' = CHR '','' then
                               (case skip_ws r3 of
                                  [] \<Rightarrow> None
                                | q # r4 \<Rightarrow>
                                    (if q = CHR 0x22 then
                                       (case JSONObject fuel r4 of
                                          None \<Rightarrow> None
                                        | Some (kvs, rest) \<Rightarrow> Some ((k, v) # kvs, rest))
                                     else None))
                             else None))))))"

text \<open>
  \<^verbatim>\<open>json.loads\<close>. Of two nested calls of the readers at least one comes after a character
  of the text was read, so the fuel is two units for each character; that every text
  written by \<^const>\<open>dumps\<close> is read back with it is proved below.
\<close>

definition loads :: "string \<Rightarrow> json option" where
  "loads s =
     (case scan_once (2 * length s + 2) (skip_ws s) of
        None \<Rightarrow> None
      | Some (v, rest) \<Rightarrow> if skip_ws rest = [] then Some v else None)"

section \<open>Setting up the credentials\<close>

text \<open>
  \<^verbatim>\<open>str.format\<close> with string arguments, as text: \<^verbatim>\<open>str()\<close> of a string is the string
  itself. Every value in the message is one of the arguments, so the last case of the
  inner function is never taken.
\<close>

definition format_text :: "string \<Rightarrow> string list \<Rightarrow> py_exception + string" where
  "format_text template args =
     (case format template (map PStr args) of
        Inl e \<Rightarrow> Inl e
      | Inr m \<Rightarrow>
          Inr (concat (map (\<lambda>p. case p of Ch c \<Rightarrow> [c] | Val (PStr s) \<Rightarrow> s | Val _ \<Rightarrow> []) m)))"

text \<open>
  \<^verbatim>\<open>CredentialsConfiguration.require\<close> of certbot's \<^verbatim>\<open>plugins/dns_common.py\<close>, which is not
  part of the plugin: for each required variable, in the order of the dictionary, a message
  when the file has no such property (\<^verbatim>\<open>conf\<close> gives \<^verbatim>\<open>None\<close>) or an empty one; when there
  is a message, a \<^verbatim>\<open>PluginError\<close> naming the file. \<open>mapper\<close> gives the name of a variable
  in the file.
\<close>

fun require_messages ::
  "(string \<Rightarrow> string) \<Rightarrow> (string \<times> string) list \<Rightarrow> credentials \<Rightarrow> py_exception + string list" where
  "require_messages mapper [] creds = Inr []"
| "require_messages mapper (v # vs) creds =
     (case (if conf creds (fst v) = None then
              (case format_text ''Property \"{0}\" not found (should be {1}).'' [mapper (fst v), snd v] of
                 Inl e \<Rightarrow> Inl e
               | Inr msg \<Rightarrow> Inr [msg])
            else if \<not> truthy (conf creds (fst v)) then
              (case format_text ''Property \"{0}\" not set (should be {1}).'' [mapper (fst v), snd v] of
                 Inl e \<Rightarrow> Inl e
               | Inr msg \<Rightarrow> Inr [msg])
            else Inr []) of
        Inl e \<Rightarrow> Inl e
      | Inr first \<Rightarrow>
          (case require_messages mapper vs creds of
             Inl e \<Rightarrow> Inl e
           | Inr others \<Rightarrow> Inr (first @ others)))"

definition require ::
  "(string \<Rightarrow> string) \<Rightarrow> (string \<times> string) list \<Rightarrow> credentials \<Rightarrow> py_exception + unit" where
  "require mapper required_variables creds =
     (case require_messages mapper required_variables creds of
        Inl e \<Rightarrow> Inl e
      | Inr messages \<Rightarrow>
          (if messages \<noteq> [] then
             (case format ''Missing {0} in credentials configuration file {1}:\<newline> * {2}''
                     [PStr (if length messages = 1 then ''property'' else ''properties''),
                      PStr (filename creds),
                      PStr (join ''\<newline> * '' messages)] of
                Inl e \<Rightarrow> Inl e
              | Inr m \<Rightarrow> Inl (PluginError m))
           else Inr ()))"

text \<open>
  \<^verbatim>\<open>DNSAuthenticator._configure_credentials\<close> of certbot, from the point where the file is
  loaded: the required variables are checked first, then the validator of the plugin is
  called, and the credentials are returned.
\<close>

definition configure_credentials ::
  "(string \<Rightarrow> string) \<Rightarrow> (string \<times> string) list \<Rightarrow> (credentials \<Rightarrow> py_exception + unit)
     \<Rightarrow> credentials \<Rightarrow> py_exception + credentials" where
  "configure_credentials mapper required_variables validator creds =
     (case require mapper required_variables creds of
        Inl e \<Rightarrow> Inl e
      | Inr _ \<Rightarrow>
          (case validator creds of
             Inl e \<Rightarrow> Inl e
           | Inr _ \<Rightarrow> Inr creds))"

text \<open>
  \<^verbatim>\<open>Authenticator._setup_credentials\<close>, the only caller of \<^verbatim>\<open>_validate_credentials\<close>.
  \<open>dest\<close> is \<^verbatim>\<open>self.dest\<close>, the name a variable has in the credentials file.
\<close>

definition setup_credentials ::
  "(string \<Rightarrow> string) \<Rightarrow> string set \<Rightarrow> credentials \<Rightarrow> py_exception + credentials" where
  "setup_credentials dest fs creds =
     configure_credentials dest
       [(''username'', ''Username of the Reg.ru account.''),
        (''password'', ''Password of the Reg.ru account.'')]
       (validate_credentials fs) creds"

section \<open>The world outside the plugin\<close>

text \<open>
  What the plugin does to the outside is recorded in a \<open>world\<close>: the POST requests issued
  through \<^verbatim>\<open>requests.post\<close>, in order, and the records handed to the logger.
\<close>

record request =
  url :: string
  form_data :: "(string \<times> string) list"
  client_cert :: "(string \<times> string) option"

datatype level = DEBUG | WARNING | ERROR

type_synonym log_record = "level \<times> string \<times> pyval list"

record world =
  posted :: "request list"
  logged :: "log_record list"

definition log :: "level \<Rightarrow> string \<Rightarrow> pyval list \<Rightarrow> world \<Rightarrow> world" where
  "log lvl template args w = w\<lparr>logged := logged w @ [(lvl, template, args)]\<rparr>"

section \<open>Transport\<close>

text \<open>
  \<^verbatim>\<open>requests.post\<close> is the network: a function \<open>net\<close> from the request to the response, or
  to the exception it raises. \<^verbatim>\<open>raise_for_status\<close> raises an \<^verbatim>\<open>HTTPError\<close> holding the
  response for a status from 400 to 599; \<^verbatim>\<open>response.json()\<close> raises a
  \<^verbatim>\<open>JSONDecodeError\<close> without response when the body is not JSON. Both are
  \<^verbatim>\<open>RequestException\<close>s, whose \<^verbatim>\<open>response\<close> attribute is the response or \<^verbatim>\<open>None\<close>.
\<close>

type_synonym network = "request \<Rightarrow> py_exception + http_response"

definition requests_post ::
  "network \<Rightarrow> request \<Rightarrow> world \<Rightarrow> world \<times> (py_exception + http_response)" where
  "requests_post net req w = (w\<lparr>posted := posted w @ [req]\<rparr>, net req)"

definition raise_for_status :: "http_response \<Rightarrow> py_exception + unit" where
  "raise_for_status response =
     (if 400 \<le> status_code response \<and> status_code response < 600
      then Inl (RequestException (Some response)) else Inr ())"

definition response_json :: "http_response \<Rightarrow> py_exception + json" where
  "response_json response =
     (case json_body response of
        None \<Rightarrow> Inl (RequestException None)
      | Some v \<Rightarrow> Inr v)"

text \<open>\<^verbatim>\<open>_HttpClient.send\<close>.\<close>

definition send ::
  "network \<Rightarrow> string set \<Rightarrow> string \<Rightarrow> (string \<times> string) list \<Rightarrow> string option \<Rightarrow> string option
     \<Rightarrow> world \<Rightarrow> world \<times> (py_exception + json)" where
  "send net fs url' data cert key w =
     (let (w', r) =
        (if truthy cert \<and> truthy key \<and> path_exists fs (the cert) \<and> path_exists fs (the key)
         then requests_post net
                \<lparr>url = url', form_data = data, client_cert = Some (the cert, the key)\<rparr> w
         else requests_post net \<lparr>url = url', form_data = data, client_cert = None\<rparr> w)
      in case r of
           Inl e \<Rightarrow> (w', Inl e)
         | Inr response \<Rightarrow>
             (case raise_for_status response of
                Inl e \<Rightarrow> (w', Inl e)
              | Inr _ \<Rightarrow> (w', response_json response)))"

section \<open>Record manager\<close>

text \<open>
  \<^verbatim>\<open>_RegRuClient\<close>. Its field \<^verbatim>\<open>http\<close> is the transport: \<^verbatim>\<open>_HttpClient().send\<close> in the
  plugin, any other function of the same type in a test. The user name and the password
  are what \<^verbatim>\<open>credentials.conf\<close> gave: a string or \<^verbatim>\<open>None\<close>.
\<close>

type_synonym transport =
  "string \<Rightarrow> (string \<times> string) list \<Rightarrow> string option \<Rightarrow> string option
     \<Rightarrow> world \<Rightarrow> world \<times> (py_exception + json)"

record regru_client =
  http :: transport
  cert :: "string option"
  key :: "string option"
  username :: "string option"
  password :: "string option"
  options :: "(string \<times> string) list"

definition RegRuClient ::
  "transport \<Rightarrow> string option \<Rightarrow> string option \<Rightarrow> string option \<Rightarrow> string option
     \<Rightarrow> regru_client" where
  "RegRuClient http' username' password' cert' key' =
     \<lparr>http = http', cert = cert', key = key', username = username', password = password',
      options = [(''input_format'', ''json'')]\<rparr>"

text \<open>A string option as a JSON value: \<^verbatim>\<open>None\<close> is \<^verbatim>\<open>null\<close>.\<close>

fun json_of :: "string option \<Rightarrow> json" where
  "json_of None = JNull"
| "json_of (Some s) = JString s"

text \<open>
  \<^verbatim>\<open>_RegRuClient._create_params\<close>. The assignments write into the dictionary the caller
  passed, so the function returns that dictionary as it is after the call, beside the
  POST parameters.
\<close>

definition create_params ::
  "regru_client \<Rightarrow> string \<Rightarrow> (string \<times> json) list
     \<Rightarrow> (string \<times> json) list \<times> (string \<times> string) list" where
  "create_params self domain input_data =
     (let pieces = split domain CHR ''.'';
          input_data = AList.update ''subdomain'' (JString (join ''.'' (slice_to pieces (- 2))))
                         input_data;
          input_data = AList.update ''domains''
                         (JArray [JObject [(''dname'', JString (join ''.'' (slice_from pieces (- 2))))]])
                         input_data;
          input_data = AList.update ''output_content_type'' (JString ''json'') input_data;
          input_data = AList.update ''username'' (json_of (username self)) input_data;
          input_data = AList.update ''password'' (json_of (password self)) input_data;
          data = options self;
          data = AList.update ''input_data'' (dumps (JObject input_data)) data
      in (input_data, data))"

text \<open>
  The operators of the envelope test. \<^verbatim>\<open>k in x\<close> looks for a key in a dictionary, for an
  equal element in a list and for a substring in a string, and raises \<^verbatim>\<open>TypeError\<close> on
  the other values; \<^verbatim>\<open>x[k]\<close> with a string \<open>k\<close> raises \<^verbatim>\<open>KeyError\<close> when a dictionary
  has no such key and \<^verbatim>\<open>TypeError\<close> on every value that is not a dictionary.
\<close>

fun py_in :: "string \<Rightarrow> json \<Rightarrow> py_exception + bool" where
  "py_in k (JObject d) = Inr (map_of d k \<noteq> None)"
| "py_in k (JArray xs) = Inr (JString k \<in> set xs)"
| "py_in k (JString s) = Inr (sublist k s)"
| "py_in k _ = Inl TypeError"

fun py_getitem :: "json \<Rightarrow> string \<Rightarrow> py_exception + json" where
  "py_getitem (JObject d) k = (case map_of d k of None \<Rightarrow> Inl KeyError | Some v \<Rightarrow> Inr v)"
| "py_getitem _ k = Inl TypeError"

text \<open>\<^verbatim>\<open>'result' not in response or response['result'] != 'success'\<close>\<close>

definition not_success :: "json \<Rightarrow> py_exception + bool" where
  "not_success response =
     (case py_in ''result'' response of
        Inl e \<Rightarrow> Inl e
      | Inr present \<Rightarrow>
          (if \<not> present then Inr True
           else (case py_getitem response ''result'' of
                   Inl e \<Rightarrow> Inl e
                 | Inr v \<Rightarrow> Inr (v \<noteq> JString ''success''))))"

text \<open>
  \<^verbatim>\<open>_RegRuClient.add_txt_record\<close>. In the handler, \<^verbatim>\<open>e.response.status_code\<close> is evaluated
  before the logger is called: when \<^verbatim>\<open>e.response\<close> is \<^verbatim>\<open>None\<close> the attribute access raises
  \<^verbatim>\<open>AttributeError\<close>. An exception that is not a \<^verbatim>\<open>RequestException\<close> is not caught.
\<close>

definition add_txt_record ::
  "regru_client \<Rightarrow> string \<Rightarrow> string \<Rightarrow> world \<Rightarrow> world \<times> (py_exception + unit)" where
  "add_txt_record self record_name record_content w =
     (let (_, data) = create_params self record_name [(''text'', JString record_content)];
          w = log DEBUG ''Attempting to add record: %s'' [PForm data] w;
          (w, r) = http self ''https://api.reg.ru/api/regru2/zone/add_txt'' data
                     (cert self) (key self) w
      in case r of
           Inl (RequestException None) \<Rightarrow> (w, Inl AttributeError)
         | Inl (RequestException (Some resp)) \<Rightarrow>
             (let w = log ERROR ''Encountered error adding TXT record: %d %s''
                        [PInt (status_code resp), PStr (text_body resp)] w
              in case format ''Error communicating with the Reg.ru API: {0}''
                        [PInt (status_code resp)] of
                   Inl e \<Rightarrow> (w, Inl e)
                 | Inr m \<Rightarrow> (w, Inl (PluginError m)))
         | Inl e \<Rightarrow> (w, Inl e)
         | Inr response \<Rightarrow>
             (case not_success response of
                Inl e \<Rightarrow> (w, Inl e)
              | Inr True \<Rightarrow>
                  (let w = log ERROR ''Encountered error adding TXT record: %s''
                             [PJson response] w
                   in case format ''Error communicating with the Reg.ru API: {0}''
                             [PJson response] of
                        Inl e \<Rightarrow> (w, Inl e)
                      | Inr m \<Rightarrow> (w, Inl (PluginError m)))
              | Inr False \<Rightarrow> (log DEBUG ''Successfully added TXT record'' [] w, Inr ())))"

text \<open>\<^verbatim>\<open>_RegRuClient.del_txt_record\<close>.\<close>

definition del_txt_record ::
  "regru_client \<Rightarrow> string \<Rightarrow> string \<Rightarrow> world \<Rightarrow> world \<times> (py_exception + unit)" where
  "del_txt_record self record_name record_content w =
     (let (_, data) = create_params self record_name
                        [(''record_type'', JString ''TXT''), (''content'', JString record_content)];
          w = log DEBUG ''Attempting to delete record: %s'' [PForm data] w;
          (w, r) = http self ''https://api.reg.ru/api/regru2/zone/remove_record'' data
                     (cert self) (key self) w
      in case r of
           Inl (RequestException None) \<Rightarrow> (w, Inl AttributeError)
         | Inl (RequestException (Some resp)) \<Rightarrow>
             (log WARNING ''Encountered error deleting TXT record: %d %s''
                [PInt (status_code resp), PStr (text_body resp)] w, Inr ())
         | Inl e \<Rightarrow> (w, Inl e)
         | Inr response \<Rightarrow>
             (case not_success response of
                Inl e \<Rightarrow> (w, Inl e)
              | Inr True \<Rightarrow>
                  (log WARNING ''Encountered error deleting TXT record: %s'' [PJson response] w,
                   Inr ())
              | Inr False \<Rightarrow> (log DEBUG ''Successfully deleted TXT record.'' [] w, Inr ())))"

text \<open>
  \<^verbatim>\<open>Authenticator._get_regru_client\<close>, \<^verbatim>\<open>_perform\<close> and \<^verbatim>\<open>_cleanup\<close>: the client is built
  from the four options of the credentials, with \<^verbatim>\<open>_HttpClient\<close> as its transport.
\<close>

definition get_regru_client :: "network \<Rightarrow> string set \<Rightarrow> credentials \<Rightarrow> regru_client" where
  "get_regru_client net fs creds =
     RegRuClient (send net fs) (conf creds ''username'') (conf creds ''password'')
       (conf creds ''cert'') (conf creds ''key'')"

definition perform ::
  "network \<Rightarrow> string set \<Rightarrow> credentials \<Rightarrow> string \<Rightarrow> string \<Rightarrow> world
     \<Rightarrow> world \<times> (py_exception + unit)" where
  "perform net fs creds validation_name validation w =
     add_txt_record (get_regru_client net fs creds) validation_name validation w"

definition cleanup ::
  "network \<Rightarrow> string set \<Rightarrow> credentials \<Rightarrow> string \<Rightarrow> string \<Rightarrow> world
     \<Rightarrow> world \<times> (py_exception + unit)" where
  "cleanup net fs creds validation_name validation w =
     del_txt_record (get_regru_client net fs creds) validation_name validation w"

section \<open>The specification's notions and sample inputs\<close>

text \<open>
  The specification speaks of the labels of a name: ``all labels except the last two'' and
  ``the last two labels''.
\<close>

definition all_but_last_two :: "'a list \<Rightarrow> 'a list" where
  "all_but_last_two xs = butlast (butlast xs)"

definition last_two :: "'a list \<Rightarrow> 'a list" where
  "last_two xs = rev (take 2 (rev xs))"

text \<open>A transport that answers every call with the same outcome, as a test double does.\<close>

definition mock :: "py_exception + json \<Rightarrow> transport" where
  "mock outcome = (\<lambda>u d c k w. (w, outcome))"

definition empty_world :: world where
  "empty_world = \<lparr>posted = [], logged = []\<rparr>"

definition http_200 :: http_response where
  "http_200 = \<lparr>status_code = 200, text_body = ''{\"result\": \"success\"}'',
      json_body = Some (JObject [(''result'', JString ''success'')])\<rparr>"

definition http_200_error :: http_response where
  "http_200_error = \<lparr>status_code = 200, text_body = ''{\"result\": \"error\"}'',
      json_body = Some (JObject [(''result'', JString ''error'')])\<rparr>"

definition http_500 :: http_response where
  "http_500 = \<lparr>status_code = 500, text_body = ''Internal Server Error'', json_body = None\<rparr>"

definition sample_credentials :: credentials where
  "sample_credentials =
     \<lparr>conf = [''username'' \<mapsto> ''user'', ''password'' \<mapsto> ''secret''],
      filename = ''/usr/local/etc/letsencrypt/regru.ini''\<rparr>"

section \<open>Notions of the proofs about JSON\<close>

text \<open>
  A JSON value is a Python value when the keys of each of its objects are distinct, as the
  keys of a \<^verbatim>\<open>dict\<close> are. The other notions say how the text of a value starts and
  what may follow it.
\<close>

definition number_ends :: "string \<Rightarrow> bool" where
  "number_ends r = (case r of [] \<Rightarrow> True | c # _ \<Rightarrow> \<not> is_digit c \<and> \<not> float_follows r)"

fun distinct_keys :: "json \<Rightarrow> bool" where
  "distinct_keys (JArray xs) = list_all distinct_keys xs"
| "distinct_keys (JObject kvs) =
     (distinct (map fst kvs) \<and> list_all (\<lambda>kv. distinct_keys (snd kv)) kvs)"
| "distinct_keys _ = True"

definition value_ends :: "string \<Rightarrow> bool" where
  "value_ends r = (case r of [] \<Rightarrow> True | c # _ \<Rightarrow> c = CHR '','' \<or> c = CHR '']'' \<or> c = CHR ''}'')"

definition member_text :: "string \<times> json \<Rightarrow> string" where
  "member_text kv = encode_string (fst kv) @ '': '' @ dumps (snd kv)"

definition starts_number :: "string \<Rightarrow> bool" where
  "starts_number s = (case s of [] \<Rightarrow> False | c # _ \<Rightarrow> c = CHR ''-'' \<or> is_digit c)"

text \<open>The first character of a serialised value is neither whitespace nor a closing bracket.\<close>

definition starts_value :: "string \<Rightarrow> bool" where
  "starts_value s =
     (case s of [] \<Rightarrow> False | c # _ \<Rightarrow> \<not> is_ws c \<and> c \<noteq> CHR '']'' \<and> c \<noteq> CHR ''}'')"

text \<open>What is to be shown of one value: enough fuel reads it back, whatever follows it.\<close>

definition reads_back :: "json \<Rightarrow> bool" where
  "reads_back v =
     (\<forall>fuel r. length (dumps v) \<le> fuel \<longrightarrow> distinct_keys v \<longrightarrow> value_ends r \<longrightarrow>
        scan_once fuel (dumps v @ r) = Some (v, r))"

section \<open>Strings and slices\<close>

lemma split_not_Nil: "split s sep \<noteq> []"
  by (induction s) (auto split: list.splits)

lemma join_Cons: "ps \<noteq> [] \<Longrightarrow> join sep (p # ps) = p @ sep @ join sep ps"
  by (cases ps) simp_all

text \<open>Splitting loses nothing: joining the labels gives the name back.\<close>

lemma join_split: "join [sep] (split s sep) = s"
proof (induction s)
  case Nil
  show ?case by simp
next
  case (Cons c cs)
  obtain p ps where sp: "split cs sep = p # ps"
    using split_not_Nil [of cs sep] by (cases "split cs sep") auto
  show ?case
  proof (cases "c = sep")
    case True
    then show ?thesis using Cons by (simp add: join_Cons split_not_Nil)
  next
    case False
    then show ?thesis using Cons sp by (cases ps) simp_all
  qed
qed

lemma sep_notin_split: "p \<in> set (split s sep) \<Longrightarrow> sep \<notin> set p"
  by (induction s arbitrary: p) (auto split: if_splits list.splits)

lemma slice_bound_minus_two: "slice_bound len (- 2) = len - 2"
  unfolding slice_bound_def by (simp add: max_def) linarith

lemma slice_to_minus_two: "slice_to xs (- 2) = all_but_last_two xs"
  by (simp add: slice_to_def slice_bound_minus_two all_but_last_two_def butlast_conv_take
      numeral_2_eq_2)

lemma slice_from_minus_two: "slice_from xs (- 2) = last_two xs"
  by (simp add: slice_from_def slice_bound_minus_two last_two_def take_rev)

section \<open>The messages\<close>

lemma format_missing_argument_password:
  "format ''{}: Either password and username are required. (see {})'' [a] = Inl IndexError"
  by (simp add: format_def)

lemma format_missing_argument_cert:
  "format ''{}: Either cert and key not found. (see {})'' [a] = Inl IndexError"
  by (simp add: format_def)

lemma format_communicating:
  "format ''Error communicating with the Reg.ru API: {0}'' [a] =
     Inr (map Ch ''Error communicating with the Reg.ru API: '' @ [Val a])"
  by (simp add: format_def digit_val_def)

section \<open>The parameter builder\<close>

lemma map_of_create_params:
  "map_of (fst (create_params self name d)) =
     (map_of d)(''subdomain'' \<mapsto> JString (join ''.'' (slice_to (split name CHR ''.'') (- 2))),
        ''domains'' \<mapsto>
          JArray [JObject [(''dname'', JString (join ''.'' (slice_from (split name CHR ''.'') (- 2))))]],
        ''output_content_type'' \<mapsto> JString ''json'',
        ''username'' \<mapsto> json_of (username self),
        ''password'' \<mapsto> json_of (password self))"
  by (simp add: create_params_def Let_def update_conv')

lemma snd_create_params:
  "snd (create_params (RegRuClient h u p c k) name d) =
     [(''input_format'', ''json''),
      (''input_data'', dumps (JObject (fst (create_params (RegRuClient h u p c k) name d))))]"
  by (simp add: create_params_def Let_def RegRuClient_def)

lemma fst_create_params_add:
  "fst (create_params self name [(''text'', JString content)]) =
     [(''text'', JString content),
      (''subdomain'', JString (join ''.'' (slice_to (split name CHR ''.'') (- 2)))),
      (''domains'',
       JArray [JObject [(''dname'', JString (join ''.'' (slice_from (split name CHR ''.'') (- 2))))]]),
      (''output_content_type'', JString ''json''),
      (''username'', json_of (username self)),
      (''password'', json_of (password self))]"
  by (simp add: create_params_def Let_def)

lemma fst_create_params_del:
  "fst (create_params self name
          [(''record_type'', JString ''TXT''), (''content'', JString content)]) =
     [(''record_type'', JString ''TXT''), (''content'', JString content),
      (''subdomain'', JString (join ''.'' (slice_to (split name CHR ''.'') (- 2)))),
      (''domains'',
       JArray [JObject [(''dname'', JString (join ''.'' (slice_from (split name CHR ''.'') (- 2))))]]),
      (''output_content_type'', JString ''json''),
      (''username'', json_of (username self)),
      (''password'', json_of (password self))]"
  by (simp add: create_params_def Let_def)

text \<open>
  Claim C3. For every name, the parameter builder sets \<^verbatim>\<open>subdomain\<close> to all labels but the
  last two joined by a dot (the empty string for a name of exactly two labels), and the
  \<^verbatim>\<open>dname\<close> of the one element of \<^verbatim>\<open>domains\<close> to the last two labels joined by a dot;
  \<^verbatim>\<open>_acme-challenge.example.com\<close> gives \<^verbatim>\<open>_acme-challenge\<close> and \<^verbatim>\<open>example.com\<close>.
\<close>

theorem create_params_labels:
  "map_of (fst (create_params self name d)) ''subdomain''
     = Some (JString (join ''.'' (all_but_last_two (split name CHR ''.''))))
   \<and> map_of (fst (create_params self name d)) ''domains''
     = Some (JArray [JObject [(''dname'', JString (join ''.'' (last_two (split name CHR ''.''))))]])
   \<and> (length (split name CHR ''.'') = 2 \<longrightarrow>
        map_of (fst (create_params self name d)) ''subdomain'' = Some (JString ''''))
   \<and> map_of (fst (create_params self ''_acme-challenge.example.com'' d)) ''subdomain''
     = Some (JString ''_acme-challenge'')
   \<and> map_of (fst (create_params self ''_acme-challenge.example.com'' d)) ''domains''
     = Some (JArray [JObject [(''dname'', JString ''example.com'')]])"
proof -
  have two: "length xs = 2 \<Longrightarrow> all_but_last_two xs = []" for xs :: "string list"
    by (cases xs; cases "tl xs") (auto simp: all_but_last_two_def)
  have ex: "split ''_acme-challenge.example.com'' CHR ''.''
              = [''_acme-challenge'', ''example'', ''com'']"
    by simp
  have sub: "map_of (fst (create_params self n d)) ''subdomain''
     = Some (JString (join ''.'' (all_but_last_two (split n CHR ''.''))))" for n
    by (simp add: map_of_create_params slice_to_minus_two)
  have dom: "map_of (fst (create_params self n d)) ''domains''
     = Some (JArray [JObject [(''dname'', JString (join ''.'' (last_two (split n CHR ''.''))))]])"
    for n
    by (simp add: map_of_create_params slice_from_minus_two)
  have "map_of (fst (create_params self ''_acme-challenge.example.com'' d)) ''subdomain''
     = Some (JString ''_acme-challenge'')"
    unfolding sub ex by (simp add: all_but_last_two_def)
  moreover have "map_of (fst (create_params self ''_acme-challenge.example.com'' d)) ''domains''
     = Some (JArray [JObject [(''dname'', JString ''example.com'')]])"
    unfolding dom ex by (simp add: last_two_def)
  moreover have "length (split name CHR ''.'') = 2 \<longrightarrow>
        map_of (fst (create_params self name d)) ''subdomain'' = Some (JString '''')"
    by (simp add: sub two)
  ultimately show ?thesis
    using sub [of name] dom [of name] by blast
qed

theorem create_params_labels_witness:
  "length (split ''example.com'' CHR ''.'') = 2
   \<and> map_of (fst (create_params (RegRuClient (mock (Inr JNull)) (Some ''user'') (Some ''secret'')
          None None) ''example.com'' [(''text'', JString ''token'')])) ''subdomain''
       = Some (JString '''')
   \<and> map_of (fst (create_params (RegRuClient (mock (Inr JNull)) (Some ''user'') (Some ''secret'')
          None None) ''example.com'' [(''text'', JString ''token'')])) ''domains''
       = Some (JArray [JObject [(''dname'', JString ''example.com'')]])"
  using create_params_labels [of "RegRuClient (mock (Inr JNull)) (Some ''user'') (Some ''secret'')
          None None" "''example.com''" "[(''text'', JString ''token'')]"]
  by (simp add: last_two_def all_but_last_two_def)

section \<open>Credential validation: proofs\<close>

lemma format_text_not_found:
  "format_text ''Property \"{0}\" not found (should be {1}).'' [name, should] =
     Inr (''Property \"'' @ name @ ''\" not found (should be '' @ should @ '').'')"
  by (simp add: format_text_def format_def digit_val_def)

lemma format_text_not_set:
  "format_text ''Property \"{0}\" not set (should be {1}).'' [name, should] =
     Inr (''Property \"'' @ name @ ''\" not set (should be '' @ should @ '').'')"
  by (simp add: format_text_def format_def digit_val_def)

lemma format_missing_properties:
  "format ''Missing {0} in credentials configuration file {1}:\<newline> * {2}'' [a, b, c] =
     Inr (map Ch ''Missing '' @ [Val a] @ map Ch '' in credentials configuration file '' @ [Val b]
          @ map Ch '':\<newline> * '' @ [Val c])"
  by (simp add: format_def digit_val_def)

text \<open>What \<^const>\<open>require\<close> finds for the two variables of the plugin.\<close>

lemma require_login:
  "require dest
     [(''username'', ''Username of the Reg.ru account.''),
      (''password'', ''Password of the Reg.ru account.'')] creds =
   (if truthy (conf creds ''username'') \<and> truthy (conf creds ''password'') then Inr ()
    else Inl (PluginError
           (map Ch ''Missing ''
            @ [Val (PStr (if truthy (conf creds ''username'') \<or> truthy (conf creds ''password'')
                          then ''property'' else ''properties''))]
            @ map Ch '' in credentials configuration file '' @ [Val (PStr (filename creds))]
            @ map Ch '':\<newline> * ''
            @ [Val (PStr (join ''\<newline> * ''
                 ((if conf creds ''username'' = None
                   then [''Property \"'' @ dest ''username''
                           @ ''\" not found (should be Username of the Reg.ru account.).'']
                   else if \<not> truthy (conf creds ''username'')
                   then [''Property \"'' @ dest ''username''
                           @ ''\" not set (should be Username of the Reg.ru account.).'']
                   else [])
                  @ (if conf creds ''password'' = None
                     then [''Property \"'' @ dest ''password''
                             @ ''\" not found (should be Password of the Reg.ru account.).'']
                     else if \<not> truthy (conf creds ''password'')
                     then [''Property \"'' @ dest ''password''
                             @ ''\" not set (should be Password of the Reg.ru account.).'']
                     else []))))])))"
  by (cases "conf creds ''username''"; cases "conf creds ''password''")
     (simp_all add: require_def format_text_not_found format_text_not_set
        format_missing_properties)

text \<open>
  The validator has a branch of its own for a missing user name or password. Its message
  template has two replacement fields and \<^verbatim>\<open>format\<close> gets one argument, so the branch would
  raise \<^verbatim>\<open>IndexError\<close>; \<^verbatim>\<open>_setup_credentials\<close> never reaches it, as \<^const>\<open>require\<close> has
  raised before.
\<close>

lemma validate_credentials_own_branch:
  assumes "\<not> truthy (conf creds ''password'') \<or> \<not> truthy (conf creds ''username'')"
  shows "validate_credentials fs creds = Inl IndexError"
  using assms by (auto simp: validate_credentials_def format_missing_argument_password)



text \<open>
  Claim C4, as stated: a credential set that gives only one of the certificate and the key
  fails validation. It does not: the file check is guarded by \<^verbatim>\<open>cert and key\<close>, and a
  certificate without a key passes.
\<close>

theorem validate_credentials_cert_without_key:
  "conf \<lparr>conf = [''username'' \<mapsto> ''user'', ''password'' \<mapsto> ''secret'',
                 ''cert'' \<mapsto> ''/etc/ssl/client.crt''],
         filename = ''regru.ini''\<rparr> ''cert'' = Some ''/etc/ssl/client.crt''
   \<and> conf \<lparr>conf = [''username'' \<mapsto> ''user'', ''password'' \<mapsto> ''secret'',
                 ''cert'' \<mapsto> ''/etc/ssl/client.crt''],
         filename = ''regru.ini''\<rparr> ''key'' = None
   \<and> validate_credentials {''/etc/ssl/client.crt''}
        \<lparr>conf = [''username'' \<mapsto> ''user'', ''password'' \<mapsto> ''secret'',
                 ''cert'' \<mapsto> ''/etc/ssl/client.crt''],
         filename = ''regru.ini''\<rparr> = Inr ()"
  by (simp add: validate_credentials_def)

text \<open>
  Claim C4, amended. For every credential set with a user name and a password, validation
  fails exactly when both a certificate path and a key path are given (non-empty) and at
  least one of the two files does not exist; a set that gives only one of the two paths
  passes.
\<close>

theorem validate_credentials_cert_and_key:
  assumes "truthy (conf creds ''username'')" and "truthy (conf creds ''password'')"
  shows "(\<exists>e. validate_credentials fs creds = Inl e) \<longleftrightarrow>
           (\<exists>c k. conf creds ''cert'' = Some c \<and> conf creds ''key'' = Some k \<and> c \<noteq> [] \<and> k \<noteq> []
                  \<and> (c \<notin> fs \<or> k \<notin> fs))"
  using assms
  by (cases "conf creds ''cert''"; cases "conf creds ''key''")
     (auto simp: validate_credentials_def format_missing_argument_cert path_exists_def)

theorem validate_credentials_cert_and_key_witness:
  "(\<exists>e. validate_credentials {''/etc/ssl/client.crt''}
          \<lparr>conf = [''username'' \<mapsto> ''user'', ''password'' \<mapsto> ''secret'',
                   ''cert'' \<mapsto> ''/etc/ssl/client.crt'', ''key'' \<mapsto> ''/etc/ssl/client.key''],
           filename = ''regru.ini''\<rparr> = Inl e)
   \<and> validate_credentials {''/etc/ssl/client.crt'', ''/etc/ssl/client.key''}
          \<lparr>conf = [''username'' \<mapsto> ''user'', ''password'' \<mapsto> ''secret'',
                   ''cert'' \<mapsto> ''/etc/ssl/client.crt'', ''key'' \<mapsto> ''/etc/ssl/client.key''],
           filename = ''regru.ini''\<rparr> = Inr ()"
proof -
  let ?creds = "\<lparr>conf = [''username'' \<mapsto> ''user'', ''password'' \<mapsto> ''secret'',
                   ''cert'' \<mapsto> ''/etc/ssl/client.crt'', ''key'' \<mapsto> ''/etc/ssl/client.key''],
           filename = ''regru.ini''\<rparr>"
  have u: "truthy (conf ?creds ''username'')" and p: "truthy (conf ?creds ''password'')"
    by simp_all
  have "\<exists>e. validate_credentials {''/etc/ssl/client.crt''} ?creds = Inl e"
    using validate_credentials_cert_and_key [OF u p, of "{''/etc/ssl/client.crt''}"] by simp
  moreover have "\<not> (\<exists>e. validate_credentials {''/etc/ssl/client.crt'', ''/etc/ssl/client.key''}
      ?creds = Inl e)"
    using validate_credentials_cert_and_key [OF u p,
        of "{''/etc/ssl/client.crt'', ''/etc/ssl/client.key''}"] by simp
  then have "validate_credentials {''/etc/ssl/client.crt'', ''/etc/ssl/client.key''} ?creds = Inr ()"
    by (cases "validate_credentials {''/etc/ssl/client.crt'', ''/etc/ssl/client.key''} ?creds")
      simp_all
  ultimately show ?thesis by blast
qed

section \<open>Transport: proofs\<close>

lemma posted_log [simp]: "posted (log lvl t args w) = posted w"
  by (simp add: log_def)

lemma form_data_send:
  "map form_data (posted (fst (send net fs u d c k w))) = map form_data (posted w) @ [d]"
  by (auto simp: send_def requests_post_def split: sum.splits)

lemma snd_send:
  "snd (send net fs u d c k w) =
     (case net \<lparr>url = u, form_data = d,
                client_cert = (if truthy c \<and> truthy k \<and> path_exists fs (the c) \<and> path_exists fs (the k)
                               then Some (the c, the k) else None)\<rparr> of
        Inl e \<Rightarrow> Inl e
      | Inr response \<Rightarrow>
          (case raise_for_status response of
             Inl e \<Rightarrow> Inl e
           | Inr _ \<Rightarrow> response_json response))"
  by (auto simp: send_def requests_post_def split: sum.splits)

text \<open>
  Claim C8. Every call of \<^verbatim>\<open>send\<close> issues one POST, to the given URL with the given form
  data; the certificate and key pair is attached if and only if both paths are given and
  both files exist, and in every other case no client certificate is attached.
\<close>

theorem send_client_cert:
  "\<exists>req. posted (fst (send net fs u d cert_path key_path w)) = posted w @ [req]
       \<and> url req = u \<and> form_data req = d
       \<and> client_cert req =
           (if \<exists>c k. cert_path = Some c \<and> key_path = Some k \<and> path_exists fs c \<and> path_exists fs k
            then Some (the cert_path, the key_path) else None)"
  by (cases cert_path; cases key_path)
     (auto simp: send_def requests_post_def path_exists_def split: sum.splits)

theorem send_client_cert_witness:
  "posted (fst (send (\<lambda>r. Inr http_200) {''/c.crt'', ''/c.key''}
                  ''https://api.reg.ru/api/regru2/zone/add_txt'' []
                  (Some ''/c.crt'') (Some ''/c.key'') empty_world))
     = [\<lparr>url = ''https://api.reg.ru/api/regru2/zone/add_txt'', form_data = [],
         client_cert = Some (''/c.crt'', ''/c.key'')\<rparr>]
   \<and> posted (fst (send (\<lambda>r. Inr http_200) {''/c.crt''}
                  ''https://api.reg.ru/api/regru2/zone/add_txt'' []
                  (Some ''/c.crt'') (Some ''/c.key'') empty_world))
     = [\<lparr>url = ''https://api.reg.ru/api/regru2/zone/add_txt'', form_data = [],
         client_cert = None\<rparr>]
   \<and> posted (fst (send (\<lambda>r. Inr http_200) {''/c.crt'', ''/c.key''}
                  ''https://api.reg.ru/api/regru2/zone/add_txt'' []
                  (Some ''/c.crt'') None empty_world))
     = [\<lparr>url = ''https://api.reg.ru/api/regru2/zone/add_txt'', form_data = [],
         client_cert = None\<rparr>]"
  using send_client_cert [of "\<lambda>r. Inr http_200" "{''/c.crt'', ''/c.key''}"
      "''https://api.reg.ru/api/regru2/zone/add_txt''" "[]" "Some ''/c.crt''" "Some ''/c.key''"
      empty_world]
    send_client_cert [of "\<lambda>r. Inr http_200" "{''/c.crt''}"
      "''https://api.reg.ru/api/regru2/zone/add_txt''" "[]" "Some ''/c.crt''" "Some ''/c.key''"
      empty_world]
    send_client_cert [of "\<lambda>r. Inr http_200" "{''/c.crt'', ''/c.key''}"
      "''https://api.reg.ru/api/regru2/zone/add_txt''" "[]" "Some ''/c.crt''" None
      empty_world]
  by (auto simp: empty_world_def path_exists_def)
section \<open>Record manager: proofs\<close>

lemma http_RegRuClient [simp]: "http (RegRuClient h u p c k) = h"
  by (simp add: RegRuClient_def)

lemma snd_mock [simp]: "snd (mock outcome u d c k w) = outcome"
  by (simp add: mock_def)

lemma not_success_object:
  "not_success (JObject env) = Inr (map_of env ''result'' \<noteq> Some (JString ''success''))"
  by (auto simp: not_success_def split: option.splits)

text \<open>An envelope that is not an object can make the test itself raise.\<close>

lemma not_success_array: "not_success (JArray [JString ''result'']) = Inl TypeError"
  by (simp add: not_success_def)

lemma not_success_number: "not_success (JInt n) = Inl TypeError"
  by (simp add: not_success_def)

text \<open>What \<^const>\<open>add_txt_record\<close> answers, by the outcome of the transport.\<close>

lemma add_txt_record_returned:
  assumes "\<And>u d c k w'. snd (http self u d c k w') = Inr response"
  shows "snd (add_txt_record self name content w) =
           (case not_success response of
              Inl e \<Rightarrow> Inl e
            | Inr True \<Rightarrow> Inl (PluginError (map Ch ''Error communicating with the Reg.ru API: ''
                                   @ [Val (PJson response)]))
            | Inr False \<Rightarrow> Inr ())"
proof -
  obtain d' data where cp: "create_params self name [(''text'', JString content)] = (d', data)"
    by (cases "create_params self name [(''text'', JString content)]")
  let ?call = "http self ''https://api.reg.ru/api/regru2/zone/add_txt'' data (cert self) (key self)
      (log DEBUG ''Attempting to add record: %s'' [PForm data] w)"
  obtain w1 r where h: "?call = (w1, r)"
    by (cases ?call)
  have r: "r = Inr response"
    using assms [of "''https://api.reg.ru/api/regru2/zone/add_txt''" data "cert self" "key self"
        "log DEBUG ''Attempting to add record: %s'' [PForm data] w"] h by simp
  show ?thesis
    unfolding add_txt_record_def cp
    by (simp add: h r format_communicating Let_def split: sum.splits bool.splits)
qed

lemma add_txt_record_raised:
  assumes "\<And>u d c k w'. snd (http self u d c k w') = Inl e"
  shows "snd (add_txt_record self name content w) =
           (case e of
              RequestException None \<Rightarrow> Inl AttributeError
            | RequestException (Some resp) \<Rightarrow>
                Inl (PluginError (map Ch ''Error communicating with the Reg.ru API: ''
                                   @ [Val (PInt (status_code resp))]))
            | _ \<Rightarrow> Inl e)"
proof -
  obtain d' data where cp: "create_params self name [(''text'', JString content)] = (d', data)"
    by (cases "create_params self name [(''text'', JString content)]")
  let ?call = "http self ''https://api.reg.ru/api/regru2/zone/add_txt'' data (cert self) (key self)
      (log DEBUG ''Attempting to add record: %s'' [PForm data] w)"
  obtain w1 r where h: "?call = (w1, r)"
    by (cases ?call)
  have r: "r = Inl e"
    using assms [of "''https://api.reg.ru/api/regru2/zone/add_txt''" data "cert self" "key self"
        "log DEBUG ''Attempting to add record: %s'' [PForm data] w"] h by simp
  show ?thesis
    unfolding add_txt_record_def cp
    by (simp add: h r format_communicating Let_def split: py_exception.splits option.splits)
qed

lemma add_txt_record_logs_error:
  assumes "\<And>u d c k w'. snd (http self u d c k w') = Inl (RequestException (Some resp))"
  shows "\<exists>w1. fst (add_txt_record self name content w) =
           log ERROR ''Encountered error adding TXT record: %d %s''
             [PInt (status_code resp), PStr (text_body resp)] w1"
proof -
  obtain d' data where cp: "create_params self name [(''text'', JString content)] = (d', data)"
    by (cases "create_params self name [(''text'', JString content)]")
  let ?call = "http self ''https://api.reg.ru/api/regru2/zone/add_txt'' data (cert self) (key self)
      (log DEBUG ''Attempting to add record: %s'' [PForm data] w)"
  obtain w1 r where h: "?call = (w1, r)"
    by (cases ?call)
  have r: "r = Inl (RequestException (Some resp))"
    using assms [of "''https://api.reg.ru/api/regru2/zone/add_txt''" data "cert self" "key self"
        "log DEBUG ''Attempting to add record: %s'' [PForm data] w"] h by simp
  show ?thesis
    unfolding add_txt_record_def cp
    by (simp add: h r format_communicating Let_def) blast
qed

text \<open>What \<^const>\<open>del_txt_record\<close> answers, by the outcome of the transport.\<close>

lemma del_txt_record_outcome:
  assumes "\<And>u d c k w'. snd (http self u d c k w') = r"
  shows "snd (del_txt_record self name content w) =
           (case r of
              Inl (RequestException None) \<Rightarrow> Inl AttributeError
            | Inl (RequestException (Some resp)) \<Rightarrow> Inr ()
            | Inl e \<Rightarrow> Inl e
            | Inr response \<Rightarrow>
                (case not_success response of Inl e \<Rightarrow> Inl e | Inr _ \<Rightarrow> Inr ()))"
proof -
  let ?d = "[(''record_type'', JString ''TXT''), (''content'', JString content)]"
  obtain d' data where cp: "create_params self name ?d = (d', data)"
    by (cases "create_params self name ?d")
  let ?call = "http self ''https://api.reg.ru/api/regru2/zone/remove_record'' data
      (cert self) (key self) (log DEBUG ''Attempting to delete record: %s'' [PForm data] w)"
  obtain w1 r' where h: "?call = (w1, r')"
    by (cases ?call)
  have r: "r' = r"
    using assms [of "''https://api.reg.ru/api/regru2/zone/remove_record''" data "cert self"
        "key self" "log DEBUG ''Attempting to delete record: %s'' [PForm data] w"] h by simp
  show ?thesis
    unfolding del_txt_record_def cp
    by (simp add: h r Let_def split: sum.splits py_exception.splits option.splits bool.splits)
qed

text \<open>
  Claim C1. When the transport returns an envelope (a JSON object), \<^verbatim>\<open>add_txt_record\<close>
  returns normally if and only if the envelope has a field \<^verbatim>\<open>result\<close> whose value is the
  string \<^verbatim>\<open>success\<close>; for every other envelope, a wrong value or no such field, it raises
  the communication error, whose message carries the envelope.
\<close>

theorem add_txt_record_envelope:
  assumes "\<And>u d c k w'. snd (http self u d c k w') = Inr (JObject env)"
  shows "(snd (add_txt_record self name content w) = Inr ()
            \<longleftrightarrow> map_of env ''result'' = Some (JString ''success''))
       \<and> (map_of env ''result'' \<noteq> Some (JString ''success'') \<longrightarrow>
            (\<exists>m. snd (add_txt_record self name content w) = Inl (PluginError m)
                 \<and> carries m (PJson (JObject env))))"
  unfolding add_txt_record_returned [OF assms] not_success_object
  by (cases "map_of env ''result'' = Some (JString ''success'')") (simp_all add: carries_def)

theorem add_txt_record_envelope_witness:
  "snd (perform (\<lambda>req. Inr http_200) {} sample_credentials
          ''_acme-challenge.example.com'' ''token'' empty_world) = Inr ()
   \<and> (\<exists>m. snd (perform (\<lambda>req. Inr http_200_error) {} sample_credentials
          ''_acme-challenge.example.com'' ''token'' empty_world) = Inl (PluginError m)
         \<and> carries m (PJson (JObject [(''result'', JString ''error'')])))"
proof -
  have ok: "snd (http (get_regru_client (\<lambda>req. Inr http_200) {} sample_credentials) u d c k w')
      = Inr (JObject [(''result'', JString ''success'')])" for u d c k w'
    by (simp add: get_regru_client_def snd_send http_200_def raise_for_status_def
        response_json_def)
  have err: "snd (http (get_regru_client (\<lambda>req. Inr http_200_error) {} sample_credentials) u d c k w')
      = Inr (JObject [(''result'', JString ''error'')])" for u d c k w'
    by (simp add: get_regru_client_def snd_send http_200_error_def raise_for_status_def
        response_json_def)
  show ?thesis
    unfolding perform_def
    using add_txt_record_envelope [OF ok, of "''_acme-challenge.example.com''" "''token''"
        empty_world]
      add_txt_record_envelope [OF err, of "''_acme-challenge.example.com''" "''token''"
        empty_world]
    by simp
qed

text \<open>
  Claim C2. Whatever the outcome of the request, \<^verbatim>\<open>del_txt_record\<close> never raises. The code
  does not keep this promise of its docstring: when the transport raises a
  \<^verbatim>\<open>RequestException\<close> without a response (no connection, a timeout, a body that is not
  JSON), the handler evaluates \<^verbatim>\<open>e.response.status_code\<close> on \<^verbatim>\<open>None\<close> and
  \<^verbatim>\<open>AttributeError\<close> leaves the function.
\<close>

theorem del_txt_record_raises:
  assumes "\<And>u d c k w'. snd (http self u d c k w') = Inl (RequestException None)"
  shows "snd (del_txt_record self name content w) = Inl AttributeError"
  by (simp add: del_txt_record_outcome [OF assms])

theorem del_txt_record_raises_witness:
  "snd (cleanup (\<lambda>req. Inl (RequestException None)) {} sample_credentials
          ''_acme-challenge.example.com'' ''token'' empty_world) = Inl AttributeError"
proof -
  have "snd (http (get_regru_client (\<lambda>req. Inl (RequestException None)) {} sample_credentials)
               u d c k w') = Inl (RequestException None)" for u d c k w'
    by (simp add: get_regru_client_def snd_send)
  then show ?thesis
    unfolding cleanup_def by (rule del_txt_record_raises)
qed

text \<open>
  Claim C7, as stated: on a transport failure the communication error carries the HTTP
  status and the body. The error raised for an HTTP 500 carries the status code only; the
  body goes to the log.
\<close>

theorem add_txt_record_error_without_body:
  "\<not> (\<exists>m. snd (perform (\<lambda>req. Inr http_500) {} sample_credentials
                  ''_acme-challenge.example.com'' ''token'' empty_world) = Inl (PluginError m)
          \<and> carries m (PInt 500) \<and> carries m (PStr ''Internal Server Error''))"
proof -
  have "snd (http (get_regru_client (\<lambda>req. Inr http_500) {} sample_credentials) u d c k w')
      = Inl (RequestException (Some http_500))" for u d c k w'
    by (simp add: get_regru_client_def snd_send http_500_def raise_for_status_def)
  then show ?thesis
    unfolding perform_def
    by (simp add: add_txt_record_raised [where e = "RequestException (Some http_500)"]
        carries_def http_500_def)
qed

text \<open>
  Claim C7, amended. For every transport failure that holds an HTTP response,
  \<^verbatim>\<open>add_txt_record\<close> raises the communication error, whose message carries the status
  code, and records the status code and the body in an error record of the log.
\<close>

theorem add_txt_record_transport_failure:
  assumes "\<And>u d c k w'. snd (http self u d c k w') = Inl (RequestException (Some resp))"
  shows "(\<exists>m. snd (add_txt_record self name content w) = Inl (PluginError m)
              \<and> carries m (PInt (status_code resp)))
       \<and> (ERROR, ''Encountered error adding TXT record: %d %s'',
            [PInt (status_code resp), PStr (text_body resp)])
           \<in> set (logged (fst (add_txt_record self name content w)))"
proof -
  obtain w1 where "fst (add_txt_record self name content w) =
      log ERROR ''Encountered error adding TXT record: %d %s''
        [PInt (status_code resp), PStr (text_body resp)] w1"
    using add_txt_record_logs_error [OF assms] by blast
  then show ?thesis
    by (simp add: add_txt_record_raised [OF assms] carries_def log_def)
qed

theorem add_txt_record_transport_failure_witness:
  "(\<exists>m. snd (perform (\<lambda>req. Inr http_500) {} sample_credentials
                ''_acme-challenge.example.com'' ''token'' empty_world) = Inl (PluginError m)
         \<and> carries m (PInt 500))
   \<and> (ERROR, ''Encountered error adding TXT record: %d %s'',
        [PInt 500, PStr ''Internal Server Error''])
       \<in> set (logged (fst (perform (\<lambda>req. Inr http_500) {} sample_credentials
                ''_acme-challenge.example.com'' ''token'' empty_world)))"
proof -
  have "snd (http (get_regru_client (\<lambda>req. Inr http_500) {} sample_credentials) u d c k w')
      = Inl (RequestException (Some http_500))" for u d c k w'
    by (simp add: get_regru_client_def snd_send http_500_def raise_for_status_def)
  from add_txt_record_transport_failure [OF this, of "''_acme-challenge.example.com''"
      "''token''" empty_world]
  show ?thesis
    unfolding perform_def by (simp add: http_500_def)
qed
lemma posted_add_txt_record:
  "posted (fst (add_txt_record self name content w)) =
     posted (fst (http self ''https://api.reg.ru/api/regru2/zone/add_txt''
                    (snd (create_params self name [(''text'', JString content)]))
                    (cert self) (key self)
                    (log DEBUG  ''Attempting to add record: %s''
                       [PForm (snd (create_params self name [(''text'', JString content)]))] w)))"
  unfolding add_txt_record_def
  by (simp add: Let_def format_communicating
      split: prod.splits sum.splits py_exception.splits option.splits bool.splits)

lemma posted_del_txt_record:
  "posted (fst (del_txt_record self name content w)) =
     posted (fst (http self ''https://api.reg.ru/api/regru2/zone/remove_record''
                    (snd (create_params self name
                       [(''record_type'', JString ''TXT''), (''content'', JString content)]))
                    (cert self) (key self)
                    (log DEBUG  ''Attempting to delete record: %s''
                       [PForm (snd (create_params self name
                          [(''record_type'', JString ''TXT''), (''content'', JString content)]))] w)))"
  unfolding del_txt_record_def
  by (simp add: Let_def
      split: prod.splits sum.splits py_exception.splits option.splits bool.splits)

text \<open>
  Claim C6. The parameter builder returns a form of exactly two fields: the constant
  \<^verbatim>\<open>input_format\<close> = \<^verbatim>\<open>json\<close> and \<^verbatim>\<open>input_data\<close>, the JSON text of the payload. The payload
  holds the caller's fields together with the user name, the password and
  \<^verbatim>\<open>output_content_type\<close> = \<^verbatim>\<open>json\<close>. This is the form that every add and every delete
  call posts.
\<close>

theorem create_params_form:
  "snd (create_params (RegRuClient h u p c k) name d) =
     [(''input_format'', ''json''),
      (''input_data'', dumps (JObject (fst (create_params (RegRuClient h u p c k) name d))))]
   \<and> map_of (fst (create_params (RegRuClient h u p c k) name d)) ''username'' = Some (json_of u)
   \<and> map_of (fst (create_params (RegRuClient h u p c k) name d)) ''password'' = Some (json_of p)
   \<and> map_of (fst (create_params (RegRuClient h u p c k) name d)) ''output_content_type''
        = Some (JString ''json'')
   \<and> map form_data (posted (fst (perform net fs creds name content w))) =
       map form_data (posted w) @
         [[(''input_format'', ''json''),
           (''input_data'', dumps (JObject
              [(''text'', JString content),
               (''subdomain'', JString (join ''.'' (slice_to (split name CHR ''.'') (- 2)))),
               (''domains'', JArray [JObject [(''dname'',
                    JString (join ''.'' (slice_from (split name CHR ''.'') (- 2))))]]),
               (''output_content_type'', JString ''json''),
               (''username'', json_of (conf creds ''username'')),
               (''password'', json_of (conf creds ''password''))]))]]
   \<and> map form_data (posted (fst (cleanup net fs creds name content w))) =
       map form_data (posted w) @
         [[(''input_format'', ''json''),
           (''input_data'', dumps (JObject
              [(''record_type'', JString ''TXT''), (''content'', JString content),
               (''subdomain'', JString (join ''.'' (slice_to (split name CHR ''.'') (- 2)))),
               (''domains'', JArray [JObject [(''dname'',
                    JString (join ''.'' (slice_from (split name CHR ''.'') (- 2))))]]),
               (''output_content_type'', JString ''json''),
               (''username'', json_of (conf creds ''username'')),
               (''password'', json_of (conf creds ''password''))]))]]"
proof (intro conjI)
  show "snd (create_params (RegRuClient h u p c k) name d) =
     [(''input_format'', ''json''),
      (''input_data'', dumps (JObject (fst (create_params (RegRuClient h u p c k) name d))))]"
    by (rule snd_create_params)
  show "map_of (fst (create_params (RegRuClient h u p c k) name d)) ''username'' = Some (json_of u)"
    by (simp add: map_of_create_params RegRuClient_def)
  show "map_of (fst (create_params (RegRuClient h u p c k) name d)) ''password'' = Some (json_of p)"
    by (simp add: map_of_create_params RegRuClient_def)
  show "map_of (fst (create_params (RegRuClient h u p c k) name d)) ''output_content_type''
        = Some (JString ''json'')"
    by (simp add: map_of_create_params)
next
  show "map form_data (posted (fst (perform net fs creds name content w))) =
       map form_data (posted w) @
         [[(''input_format'', ''json''),
           (''input_data'', dumps (JObject
              [(''text'', JString content),
               (''subdomain'', JString (join ''.'' (slice_to (split name CHR ''.'') (- 2)))),
               (''domains'', JArray [JObject [(''dname'',
                    JString (join ''.'' (slice_from (split name CHR ''.'') (- 2))))]]),
               (''output_content_type'', JString ''json''),
               (''username'', json_of (conf creds ''username'')),
               (''password'', json_of (conf creds ''password''))]))]]"
    unfolding perform_def get_regru_client_def posted_add_txt_record snd_create_params
      fst_create_params_add
    by (simp only: http_RegRuClient form_data_send posted_log) (simp add: RegRuClient_def)
next
  show "map form_data (posted (fst (cleanup net fs creds name content w))) =
       map form_data (posted w) @
         [[(''input_format'', ''json''),
           (''input_data'', dumps (JObject
              [(''record_type'', JString ''TXT''), (''content'', JString content),
               (''subdomain'', JString (join ''.'' (slice_to (split name CHR ''.'') (- 2)))),
               (''domains'', JArray [JObject [(''dname'',
                    JString (join ''.'' (slice_from (split name CHR ''.'') (- 2))))]]),
               (''output_content_type'', JString ''json''),
               (''username'', json_of (conf creds ''username'')),
               (''password'', json_of (conf creds ''password''))]))]]"
    unfolding cleanup_def get_regru_client_def posted_del_txt_record snd_create_params
      fst_create_params_del
    by (simp only: http_RegRuClient form_data_send posted_log) (simp add: RegRuClient_def)
qed

theorem create_params_form_witness:
  "map fst (snd (create_params (RegRuClient (mock (Inr JNull)) (Some ''user'') (Some ''secret'')
       None None) ''example.com'' [(''text'', JString ''token'')]))
     = [''input_format'', ''input_data'']
   \<and> map (map fst) (map form_data (posted (fst (perform (\<lambda>req. Inr http_200) {}
       sample_credentials ''example.com'' ''token'' empty_world))))
     = [[''input_format'', ''input_data'']]"
  using create_params_form [of "mock (Inr JNull)" "Some ''user''" "Some ''secret''" None None
      "''example.com''" "[(''text'', JString ''token'')]" "\<lambda>req. Inr http_200" "{}"
      sample_credentials "''token''" empty_world]
  by (simp add: empty_world_def)

text \<open>
  Claim C10. The parameter builder writes into the dictionary its caller passed: after the
  call that dictionary holds the keys \<^verbatim>\<open>subdomain\<close>, \<^verbatim>\<open>domains\<close>, \<^verbatim>\<open>output_content_type\<close>,
  \<^verbatim>\<open>username\<close> and \<^verbatim>\<open>password\<close> beside its own, and every other entry is as it was.
\<close>

theorem create_params_mutates_input_data:
  "map_of (fst (create_params self name d)) ''subdomain''
      = Some (JString (join ''.'' (slice_to (split name CHR ''.'') (- 2))))
   \<and> map_of (fst (create_params self name d)) ''domains''
      = Some (JArray [JObject [(''dname'',
           JString (join ''.'' (slice_from (split name CHR ''.'') (- 2))))]])
   \<and> map_of (fst (create_params self name d)) ''output_content_type'' = Some (JString ''json'')
   \<and> map_of (fst (create_params self name d)) ''username'' = Some (json_of (username self))
   \<and> map_of (fst (create_params self name d)) ''password'' = Some (json_of (password self))
   \<and> (\<forall>k. k \<notin> {''subdomain'', ''domains'', ''output_content_type'', ''username'', ''password''}
          \<longrightarrow> map_of (fst (create_params self name d)) k = map_of d k)
   \<and> fst ` set (fst (create_params self name d))
      = fst ` set d \<union> {''subdomain'', ''domains'', ''output_content_type'', ''username'', ''password''}
   \<and> take (length d) (map fst (fst (create_params self name d))) = map fst d"
proof -
  have keys: "fst ` set (fst (create_params self name d))
      = fst ` set d \<union> {''subdomain'', ''domains'', ''output_content_type'', ''username'', ''password''}"
    by (auto simp add: create_params_def Let_def dom_update)
  have prefix: "take (length al) (map fst (AList.update k v al)) = map fst al"
    for k :: string and v :: json and al
    by (simp add: update_keys)
  have len: "length al \<le> length (AList.update k v al)" for k :: string and v :: json and al
    using arg_cong [OF update_keys [of k v al], of length] by (simp split: if_splits)
  have step: "take n (map fst (AList.update k v al)) = take n (map fst al)" if "n \<le> length al"
    for n and k :: string and v :: json and al
    using that by (simp add: update_keys)
  have order: "take (length d) (map fst (fst (create_params self name d))) = map fst d"
    unfolding create_params_def Let_def fst_conv
    by (simp add: step len le_trans [OF _ len])
  show ?thesis
    unfolding map_of_create_params using keys order by simp
qed

theorem create_params_mutates_input_data_witness:
  "''text'' \<notin> {''subdomain'', ''domains'', ''output_content_type'', ''username'', ''password''}
   \<and> map_of (fst (create_params (RegRuClient (mock (Inr JNull)) (Some ''user'') (Some ''secret'')
        None None) ''example.com'' [(''text'', JString ''token'')])) ''text''
      = Some (JString ''token'')
   \<and> map fst (fst (create_params (RegRuClient (mock (Inr JNull)) (Some ''user'') (Some ''secret'')
        None None) ''example.com'' [(''text'', JString ''token'')]))
      = [''text'', ''subdomain'', ''domains'', ''output_content_type'', ''username'', ''password'']"
proof -
  let ?self = "RegRuClient (mock (Inr JNull)) (Some ''user'') (Some ''secret'') None None"
  let ?d = "[(''text'', JString ''token'')]"
  have t: "''text'' \<notin> {''subdomain'', ''domains'', ''output_content_type'', ''username'', ''password''}"
    by simp
  have "\<forall>k. k \<notin> {''subdomain'', ''domains'', ''output_content_type'', ''username'', ''password''}
          \<longrightarrow> map_of (fst (create_params ?self ''example.com'' ?d)) k = map_of ?d k"
    using create_params_mutates_input_data [of ?self "''example.com''" ?d]
    by (elim conjE) assumption
  then have "map_of (fst (create_params ?self ''example.com'' ?d)) ''text'' = map_of ?d ''text''"
    using t by (elim allE impE) assumption+
  moreover have "map fst (fst (create_params ?self ''example.com'' ?d))
      = [''text'', ''subdomain'', ''domains'', ''output_content_type'', ''username'', ''password'']"
    unfolding fst_create_params_add by simp
  ultimately show ?thesis
    using t by simp
qed

section \<open>JSON: serialising and parsing\<close>

lemma hex_val_hex_digit: "d < 16 \<Longrightarrow> hex_val (hex_digit d) = Some d"
  by (simp add: hex_val_def hex_digit_def Let_def)

lemma of_char_div_16: "(of_char c :: nat) div 16 < 16"
  using nat_of_char_less_256 [of c] by (simp add: less_mult_imp_div_less)

lemma decode_escape:
  "decode_uXXXX CHR ''0'' CHR ''0'' (hex_digit (of_char c div 16)) (hex_digit (of_char c mod 16))
     = Some (of_char c)"
  by (simp add: decode_uXXXX_def hex_val_hex_digit of_char_div_16) (simp add: hex_val_def)

lemma scanstring_escape_char:
  "scanstring (escape_char c @ s) =
     (case scanstring s of None \<Rightarrow> None | Some (str, rest) \<Rightarrow> Some (c # str, rest))"
proof -
  consider (q) "c = CHR 0x22" | (b) "c = CHR 0x5C" | (c8) "c = CHR 0x08" | (cC) "c = CHR 0x0C"
    | (cA) "c = CHR 0x0A" | (cD) "c = CHR 0x0D" | (c9) "c = CHR 0x09"
    | (plain) "c \<noteq> CHR 0x22" "c \<noteq> CHR 0x5C" "32 \<le> (of_char c :: nat)" "(of_char c :: nat) \<le> 126"
    | (uni) "c \<noteq> CHR 0x22" "c \<noteq> CHR 0x5C" "c \<noteq> CHR 0x08" "c \<noteq> CHR 0x0C" "c \<noteq> CHR 0x0A"
        "c \<noteq> CHR 0x0D" "c \<noteq> CHR 0x09" "\<not> (32 \<le> (of_char c :: nat) \<and> (of_char c :: nat) \<le> 126)"
    by blast
  then show ?thesis
  proof cases
    case plain
    then have "escape_char c = [c]"
      by (auto simp: escape_char_def)
    with plain show ?thesis by simp
  next
    case uni
    then have "escape_char c = [CHR 0x5C, CHR ''u'', CHR ''0'', CHR ''0'',
            hex_digit (of_char c div 16), hex_digit (of_char c mod 16)]"
      by (simp add: escape_char_def)
    then show ?thesis
      by (simp add: decode_escape split: option.splits)
  qed (simp_all add: escape_char_def backslash_def split: option.splits)
qed

lemma scanstring_escaped:
  "scanstring (concat (map escape_char s) @ CHR 0x22 # r) = Some (s, r)"
proof (induction s)
  case Nil
  show ?case by simp
next
  case (Cons c s)
  then show ?case
    by (simp add: scanstring_escape_char del: scanstring.simps)
qed

lemma scan_string_encoded:
  "scanstring (tl (encode_string s) @ r) = Some (s, r)"
  by (simp add: encode_string_def scanstring_escaped del: scanstring.simps)

lemma of_char_digit: "n < 10 \<Longrightarrow> (of_char (char_of (48 + n)) :: nat) = 48 + n"
  by simp

lemma str_nat_not_Nil: "str_nat n \<noteq> []"
  by (subst str_nat.simps) simp

lemma is_digit_str_nat: "c \<in> set (str_nat n) \<Longrightarrow> is_digit c"
proof (induction n arbitrary: c rule: str_nat.induct)
  case (1 n)
  show ?case
  proof (cases "n < 10")
    case True
    with "1.prems" show ?thesis
      by (subst (asm) str_nat.simps) (simp add: is_digit_def)
  next
    case False
    with "1.prems" have "c \<in> set (str_nat (n div 10)) \<or> c = char_of (48 + n mod 10)"
      by (subst (asm) str_nat.simps) auto
    then show ?thesis
    proof
      assume "c \<in> set (str_nat (n div 10))"
      with False "1.IH" show ?thesis by simp
    next
      assume "c = char_of (48 + n mod 10)"
      then show ?thesis by (simp add: is_digit_def)
    qed
  qed
qed

lemma int_of_digits_snoc: "int_of_digits (ds @ [c]) = 10 * int_of_digits ds + (of_char c - 48)"
  by (simp add: int_of_digits_def)

lemma int_of_digits_str_nat: "int_of_digits (str_nat n) = n"
proof (induction n rule: str_nat.induct)
  case (1 n)
  show ?case
  proof (cases "n < 10")
    case True
    then show ?thesis
      by (subst str_nat.simps) (simp add: int_of_digits_def)
  next
    case False
    then have "int_of_digits (str_nat n) = 10 * int_of_digits (str_nat (n div 10)) + n mod 10"
      by (subst str_nat.simps) (simp add: int_of_digits_snoc)
    with False "1.IH" show ?thesis by simp
  qed
qed

lemma hd_str_nat: "0 < n \<Longrightarrow> hd (str_nat n) \<noteq> CHR ''0''"
proof (induction n rule: str_nat.induct)
  case (1 n)
  show ?case
  proof (cases "n < 10")
    case True
    have "(of_char (hd (str_nat n)) :: nat) = 48 + n"
      using True by (subst str_nat.simps) simp
    with "1.prems" show ?thesis by auto
  next
    case False
    then have "hd (str_nat n) = hd (str_nat (n div 10))"
      by (subst str_nat.simps) (simp add: str_nat_not_Nil)
    moreover have "0 < n div 10" using False by simp
    ultimately show ?thesis using False "1.IH" by simp
  qed
qed

lemma takeWhile_digits:
  assumes "\<forall>c \<in> set ds. is_digit c" and "number_ends r"
  shows "takeWhile is_digit (ds @ r) = ds" and "dropWhile is_digit (ds @ r) = r"
proof -
  have r: "takeWhile is_digit r = []" "dropWhile is_digit r = r"
    using assms(2) by (cases r; simp add: number_ends_def)+
  show "takeWhile is_digit (ds @ r) = ds"
    using assms(1) r by (simp add: takeWhile_append2)
  show "dropWhile is_digit (ds @ r) = r"
    using assms(1) r by (simp add: dropWhile_append2)
qed

lemma match_digits_str_nat:
  assumes "number_ends r"
  shows "match_digits (str_nat n @ r) = Some (n, r)"
proof (cases "n = 0")
  case True
  have "(of_char (char_of (48::nat)) :: nat) = of_char CHR ''0''" by simp
  then have "char_of (48::nat) = CHR ''0''" by (simp only: of_char_eq_iff)
  then have "str_nat 0 = ''0''" by (subst str_nat.simps) simp
  with True show ?thesis by (simp add: match_digits_def is_digit_def)
next
  case False
  obtain d ds where s: "str_nat n = d # ds"
    using str_nat_not_Nil [of n] by (cases "str_nat n") auto
  have d: "is_digit d" and ds: "\<forall>c \<in> set ds. is_digit c"
    using is_digit_str_nat [of _ n] s by auto
  have d0: "d \<noteq> CHR ''0''"
    using hd_str_nat [of n] False s by simp
  have "int_of_digits (d # ds) = n"
    using int_of_digits_str_nat [of n] s by simp
  then show ?thesis
    by (simp add: match_digits_def s d d0 takeWhile_digits [OF ds assms])
qed

lemma number_ends_float: "number_ends r \<Longrightarrow> \<not> float_follows r"
  by (cases r) (simp_all add: number_ends_def float_follows_def)

lemma match_number_str_int:
  assumes "number_ends r"
  shows "match_number (str_int i @ r) = Some (i, r)"
proof (cases "i < 0")
  case True
  then show ?thesis
    by (simp add: match_number_def str_int_def match_digits_str_nat [OF assms]
        number_ends_float [OF assms])
next
  case False
  obtain d ds where s: "str_nat (nat i) = d # ds"
    using str_nat_not_Nil [of "nat i"] by (cases "str_nat (nat i)") auto
  have "is_digit d" using is_digit_str_nat [of d "nat i"] s by simp
  then have minus: "d \<noteq> CHR ''-''" by (auto simp: is_digit_def)
  have "match_digits (d # ds @ r) = Some (nat i, r)"
    using match_digits_str_nat [OF assms, of "nat i"] s by simp
  with False minus show ?thesis
    by (simp add: match_number_def str_int_def s number_ends_float [OF assms])
qed

lemma dumps_JObject: "dumps (JObject kvs) = ''{'' @ join '', '' (map member_text kvs) @ ''}''"
  by (simp add: member_text_def [abs_def])

lemma value_ends_number: "value_ends r \<Longrightarrow> number_ends r"
  by (cases r) (auto simp: value_ends_def number_ends_def is_digit_def float_follows_def)

lemma skip_ws_start: "s \<noteq> [] \<Longrightarrow> \<not> is_ws (hd s) \<Longrightarrow> skip_ws s = s"
  by (cases s) (simp_all add: skip_ws_def)

lemma skip_ws_space [simp]: "skip_ws (CHR '' '' # s) = skip_ws s"
  by (simp add: skip_ws_def is_ws_def)

lemma starts_number_str_int: "starts_number (str_int i @ r)"
proof -
  obtain d ds where s: "str_nat (nat \<bar>i\<bar>) = d # ds"
    using str_nat_not_Nil [of "nat \<bar>i\<bar>"] by (cases "str_nat (nat \<bar>i\<bar>)") auto
  have "is_digit d" using is_digit_str_nat [of d "nat \<bar>i\<bar>"] s by simp
  then show ?thesis
    using s by (cases "i < 0") (auto simp: starts_number_def str_int_def abs_if)
qed

lemma scan_once_number:
  assumes "starts_number s"
  shows "scan_once (Suc fuel) s =
           (case match_number s of None \<Rightarrow> None | Some (i, rest) \<Rightarrow> Some (JInt i, rest))"
proof -
  obtain c cs where s: "s = c # cs" and c: "c = CHR ''-'' \<or> is_digit c"
    using assms by (cases s) (auto simp: starts_number_def)
  from c have "c \<noteq> CHR 0x22" "c \<noteq> CHR ''{''" "c \<noteq> CHR ''[''" "c \<noteq> CHR ''n''"
    "c \<noteq> CHR ''t''" "c \<noteq> CHR ''f''"
    by (auto simp: is_digit_def)
  then show ?thesis
    unfolding s by simp
qed

lemma starts_value_dumps: "starts_value (dumps v @ r)"
proof (cases v)
  case (JInt i)
  have "starts_number (str_int i @ r)" by (rule starts_number_str_int)
  then show ?thesis
    unfolding JInt by (cases "str_int i @ r") (auto simp: starts_number_def starts_value_def is_ws_def is_digit_def)
qed (simp_all add: starts_value_def is_ws_def encode_string_def)

lemma skip_ws_dumps [simp]: "skip_ws (dumps v @ r) = dumps v @ r"
  using starts_value_dumps [of v r]
  by (cases "dumps v @ r") (simp_all add: starts_value_def skip_ws_def)

lemma dumps_not_Nil: "dumps v \<noteq> []"
  using starts_value_dumps [of v "[]"] by (auto simp: starts_value_def)

lemma length_dumps_pos: "0 < length (dumps v)"
  using dumps_not_Nil [of v] by simp

lemma encode_string_Cons:
  "encode_string k = CHR 0x22 # concat (map escape_char k) @ [CHR 0x22]"
  by (simp add: encode_string_def)

lemma dict_of_pairs_distinct:
  assumes "distinct (map fst kvs)"
  shows "dict_of_pairs kvs = kvs"
proof -
  have "distinct (map fst (acc @ kvs)) \<Longrightarrow>
          foldl (\<lambda>d kv. AList.update (fst kv) (snd kv) d) acc kvs = acc @ kvs"
    for acc :: "(string \<times> json) list"
  proof (induction kvs arbitrary: acc)
    case Nil
    show ?case by simp
  next
    case (Cons kv kvs)
    have fresh: "fst kv \<notin> fst ` set acc"
      using Cons.prems by auto
    have upd: "AList.update (fst kv) (snd kv) acc = acc @ [kv]"
      using fresh by (induction acc) auto
    have "distinct (map fst ((acc @ [kv]) @ kvs))"
      using Cons.prems by simp
    from Cons.IH [OF this] show ?case
      by (simp add: upd)
  qed
  from this [of "[]"] assms show ?thesis
    by (simp add: dict_of_pairs_def)
qed

lemma join_start: "join sep (t # ts) = t @ (if ts = [] then [] else sep @ join sep ts)"
  by (cases ts) simp_all

lemma reads_backD:
  "reads_back v \<Longrightarrow> length (dumps v) \<le> fuel \<Longrightarrow> distinct_keys v \<Longrightarrow> value_ends r \<Longrightarrow>
     scan_once fuel (dumps v @ r) = Some (v, r)"
  by (simp add: reads_back_def)

lemma JSONArray_items:
  assumes "xs \<noteq> []" and "\<forall>x \<in> set xs. reads_back x" and "list_all distinct_keys xs"
    and "length (join '', '' (map dumps xs)) < fuel"
  shows "JSONArray fuel (join '', '' (map dumps xs) @ CHR '']'' # r) = Some (xs, r)"
  using assms
proof (induction xs arbitrary: fuel)
  case Nil
  then show ?case by simp
next
  case (Cons x xs)
  obtain m where fuel: "fuel = Suc m"
    using Cons.prems(4) by (cases fuel) auto
  have rb: "reads_back x" and dk: "distinct_keys x"
    using Cons.prems by simp_all
  show ?case
  proof (cases xs)
    case Nil
    have "scan_once m (dumps x @ CHR '']'' # r) = Some (x, CHR '']'' # r)"
      using Cons.prems(4) fuel Nil
      by (intro reads_backD [OF rb _ dk]) (simp_all add: value_ends_def)
    then show ?thesis
      by (simp add: fuel Nil skip_ws_def is_ws_def)
  next
    case (Cons y ys)
    let ?rest = "join '', '' (map dumps xs) @ CHR '']'' # r"
    have j: "join '', '' (map dumps (x # xs)) = dumps x @ '', '' @ join '', '' (map dumps xs)"
      by (simp add: Cons)
    have len: "length (dumps x) \<le> m" "length (join '', '' (map dumps xs)) < m"
      using Cons.prems(4) fuel unfolding j by simp_all
    have one: "scan_once m (dumps x @ CHR '','' # CHR '' '' # ?rest) = Some (x, CHR '','' # CHR '' '' # ?rest)"
      by (intro reads_backD [OF rb len(1) dk]) (simp add: value_ends_def)
    have more: "JSONArray m ?rest = Some (xs, r)"
      using Cons.prems len(2) by (intro Cons.IH) (simp_all add: Cons)
    have start: "skip_ws ?rest = ?rest"
      unfolding Cons list.map join_start append_assoc by (rule skip_ws_dumps)
    show ?thesis
      unfolding j fuel using one more start
      by (simp add: skip_ws_def [of "CHR '','' # _"] is_ws_def)
  qed
qed

lemma member_text_Cons:
  "member_text kv =
     CHR 0x22 # concat (map escape_char (fst kv)) @ CHR 0x22 # CHR '':'' # CHR '' '' # dumps (snd kv)"
  by (simp add: member_text_def encode_string_def)

lemma JSONObject_items:
  assumes "kvs \<noteq> []" and "\<forall>kv \<in> set kvs. reads_back (snd kv)"
    and "list_all (\<lambda>kv. distinct_keys (snd kv)) kvs"
    and "length (join '', '' (map member_text kvs)) \<le> fuel"
  shows "JSONObject fuel (tl (join '', '' (map member_text kvs)) @ CHR ''}'' # r) = Some (kvs, r)"
  using assms
proof (induction kvs arbitrary: fuel)
  case Nil
  then show ?case by simp
next
  case (Cons kv kvs)
  obtain k v where kv: "kv = (k, v)" by (cases kv)
  have rb: "reads_back v" and dk: "distinct_keys v"
    using Cons.prems kv by simp_all
  obtain m where fuel: "fuel = Suc m"
    using Cons.prems(4) by (cases fuel) (auto simp: join_start member_text_Cons)
  show ?case
  proof (cases kvs)
    case Nil
    have len: "length (dumps v) \<le> m"
      using Cons.prems(4) by (simp add: Nil fuel kv member_text_Cons)
    have "scan_once m (dumps v @ CHR ''}'' # r) = Some (v, CHR ''}'' # r)"
      by (intro reads_backD [OF rb len dk]) (simp add: value_ends_def)
    then show ?thesis
      by (simp add: Nil fuel kv member_text_Cons scanstring_escaped skip_ws_def [of "CHR '':'' # _"]
          skip_ws_def [of "CHR ''}'' # _"] is_ws_def del: scanstring.simps)
  next
    case (Cons kv' kvs')
    let ?more = "join '', '' (map member_text kvs)"
    obtain body where body: "?more = CHR 0x22 # body"
      by (simp add: Cons join_start member_text_Cons)
    have j: "join '', '' (map member_text (kv # kvs)) = member_text kv @ '', '' @ ?more"
      by (simp add: Cons)
    have len: "length (dumps v) \<le> m" "length ?more \<le> m"
      using Cons.prems(4) unfolding j fuel by (simp_all add: kv member_text_Cons)
    let ?rest = "CHR '','' # CHR '' '' # CHR 0x22 # body @ CHR ''}'' # r"
    have one: "scan_once m (dumps v @ ?rest) = Some (v, ?rest)"
      by (intro reads_backD [OF rb len(1) dk]) (simp add: value_ends_def)
    have "JSONObject m (tl ?more @ CHR ''}'' # r) = Some (kvs, r)"
      using Cons.prems len(2) by (intro Cons.IH) (simp_all add: Cons)
    then have more: "JSONObject m (body @ CHR ''}'' # r) = Some (kvs, r)"
      by (simp add: body)
    show ?thesis
      unfolding j fuel body using one more
      by (simp add: kv member_text_Cons scanstring_escaped skip_ws_def [of "CHR '':'' # _"]
          skip_ws_def [of "CHR '','' # _"] skip_ws_def [of "CHR 0x22 # _"] is_ws_def
          del: scanstring.simps)
  qed
qed

lemma reads_back_all: "reads_back v"
proof (induction v)
  case JNull
  show ?case
    unfolding reads_back_def
  proof (intro allI impI)
    fix fuel r assume "length (dumps JNull) \<le> fuel"
    then obtain m where "fuel = Suc m" by (cases fuel) auto
    then show "scan_once fuel (dumps JNull @ r) = Some (JNull, r)" by simp
  qed
next
  case (JBool b)
  show ?case
    unfolding reads_back_def
  proof (intro allI impI)
    fix fuel r assume "length (dumps (JBool b)) \<le> fuel"
    then obtain m where "fuel = Suc m" by (cases fuel) (auto split: if_splits)
    then show "scan_once fuel (dumps (JBool b) @ r) = Some (JBool b, r)" by simp
  qed
next
  case (JInt i)
  show ?case
    unfolding reads_back_def
  proof (intro allI impI)
    fix fuel r assume "length (dumps (JInt i)) \<le> fuel" and "value_ends r"
    then obtain m where "fuel = Suc m"
      using length_dumps_pos [of "JInt i"] by (cases fuel) auto
    then show "scan_once fuel (dumps (JInt i) @ r) = Some (JInt i, r)"
      using \<open>value_ends r\<close>
      by (simp add: scan_once_number [OF starts_number_str_int]
          match_number_str_int [OF value_ends_number])
  qed
next
  case (JString s)
  show ?case
    unfolding reads_back_def
  proof (intro allI impI)
    fix fuel r assume "length (dumps (JString s)) \<le> fuel"
    then obtain m where "fuel = Suc m"
      using length_dumps_pos [of "JString s"] by (cases fuel) auto
    then show "scan_once fuel (dumps (JString s) @ r) = Some (JString s, r)"
      by (simp add: encode_string_def scanstring_escaped del: scanstring.simps)
  qed
next
  case (JArray xs)
  show ?case
    unfolding reads_back_def
  proof (intro allI impI)
    fix fuel r
    assume len: "length (dumps (JArray xs)) \<le> fuel" and dk: "distinct_keys (JArray xs)"
    then obtain m where fuel: "fuel = Suc m" by (cases fuel) auto
    show "scan_once fuel (dumps (JArray xs) @ r) = Some (JArray xs, r)"
    proof (cases xs)
      case Nil
      then show ?thesis
        by (simp add: fuel skip_ws_def is_ws_def)
    next
      case (Cons y ys)
      let ?items = "join '', '' (map dumps xs) @ CHR '']'' # r"
      have items: "JSONArray m ?items = Some (xs, r)"
        using JArray.IH dk len fuel Cons by (intro JSONArray_items) simp_all
      have sv: "starts_value ?items"
        unfolding Cons list.map join_start append_assoc by (rule starts_value_dumps)
      then obtain c cs where c: "?items = c # cs" "\<not> is_ws c" "c \<noteq> CHR '']''"
        by (cases ?items) (auto simp: starts_value_def)
      then have "skip_ws ?items = c # cs"
        by (simp add: skip_ws_def)
      then show ?thesis
        using items c by (simp add: fuel)
    qed
  qed
next
  case (JObject kvs)
  show ?case
    unfolding reads_back_def
  proof (intro allI impI)
    fix fuel r
    assume len: "length (dumps (JObject kvs)) \<le> fuel" and dk: "distinct_keys (JObject kvs)"
    then obtain m where fuel: "fuel = Suc m" by (cases fuel) auto
    show "scan_once fuel (dumps (JObject kvs) @ r) = Some (JObject kvs, r)"
    proof (cases kvs)
      case Nil
      then show ?thesis
        by (simp add: fuel skip_ws_def is_ws_def dict_of_pairs_def)
    next
      case (Cons kv kvs')
      let ?members = "join '', '' (map member_text kvs)"
      obtain body where body: "?members = CHR 0x22 # body"
        by (simp add: Cons join_start member_text_Cons)
      have rb: "\<forall>kv \<in> set kvs. reads_back (snd kv)"
      proof
        fix p assume p: "p \<in> set kvs"
        obtain a b where ab: "p = (a, b)" by (cases p)
        have "b \<in> Basic_BNFs.snds p" by (simp add: ab)
        from JObject.IH [OF p this] show "reads_back (snd p)" by (simp add: ab)
      qed
      have len': "length ?members \<le> m"
        using len unfolding dumps_JObject fuel by simp
      have "JSONObject m (tl ?members @ CHR ''}'' # r) = Some (kvs, r)"
        using rb dk len' Cons by (intro JSONObject_items) simp_all
      then have items: "JSONObject m (body @ CHR ''}'' # r) = Some (kvs, r)"
        by (simp add: body)
      have "dict_of_pairs kvs = kvs"
        using dk by (simp add: dict_of_pairs_distinct)
      then show ?thesis
        using items by (simp add: dumps_JObject body fuel skip_ws_def is_ws_def del: dumps.simps)
    qed
  qed
qed

lemma skip_ws_Nil [simp]: "skip_ws [] = []"
  by (simp add: skip_ws_def)

lemma loads_dumps: "distinct_keys v \<Longrightarrow> loads (dumps v) = Some v"
  using reads_backD [OF reads_back_all, of v "2 * length (dumps v) + 2" "[]"]
    skip_ws_dumps [of v "[]"]
  by (simp add: loads_def value_ends_def)

lemma distinct_keys_json_of [simp]: "distinct_keys (json_of x)"
  by (cases x) simp_all

lemma input_data_create_params:
  "map_of (snd (create_params self name d)) ''input_data''
     = Some (dumps (JObject (fst (create_params self name d))))"
  by (simp add: create_params_def Let_def update_conv')

text \<open>
  Claim C9. For every add and every remove call, parsing the JSON text in the \<^verbatim>\<open>input_data\<close>
  field of the built parameters gives back exactly the payload that was built: serialising
  and then parsing is the identity on it.
\<close>

theorem input_data_round_trip:
  "(\<exists>s. map_of (snd (create_params self name [(''text'', JString content)])) ''input_data'' = Some s
        \<and> loads s = Some (JObject
             [(''text'', JString content),
              (''subdomain'', JString (join ''.'' (slice_to (split name CHR ''.'') (- 2)))),
              (''domains'', JArray [JObject [(''dname'',
                   JString (join ''.'' (slice_from (split name CHR ''.'') (- 2))))]]),
              (''output_content_type'', JString ''json''),
              (''username'', json_of (username self)),
              (''password'', json_of (password self))])
        \<and> loads s = Some (JObject (fst (create_params self name [(''text'', JString content)]))))
   \<and> (\<exists>s. map_of (snd (create_params self name
               [(''record_type'', JString ''TXT''), (''content'', JString content)])) ''input_data''
          = Some s
        \<and> loads s = Some (JObject
             [(''record_type'', JString ''TXT''), (''content'', JString content),
              (''subdomain'', JString (join ''.'' (slice_to (split name CHR ''.'') (- 2)))),
              (''domains'', JArray [JObject [(''dname'',
                   JString (join ''.'' (slice_from (split name CHR ''.'') (- 2))))]]),
              (''output_content_type'', JString ''json''),
              (''username'', json_of (username self)),
              (''password'', json_of (password self))])
        \<and> loads s = Some (JObject (fst (create_params self name
               [(''record_type'', JString ''TXT''), (''content'', JString content)]))))"
proof -
  let ?add = "fst (create_params self name [(''text'', JString content)])"
  let ?del = "fst (create_params self name
                [(''record_type'', JString ''TXT''), (''content'', JString content)])"
  have "distinct_keys (JObject ?add)"
    unfolding fst_create_params_add by simp
  then have add: "loads (dumps (JObject ?add)) = Some (JObject ?add)"
    by (rule loads_dumps)
  have "distinct_keys (JObject ?del)"
    unfolding fst_create_params_del by simp
  then have del: "loads (dumps (JObject ?del)) = Some (JObject ?del)"
    by (rule loads_dumps)
  show ?thesis
  proof (intro conjI)
    show "\<exists>s. map_of (snd (create_params self name [(''text'', JString content)])) ''input_data'' = Some s
        \<and> loads s = Some (JObject
             [(''text'', JString content),
              (''subdomain'', JString (join ''.'' (slice_to (split name CHR ''.'') (- 2)))),
              (''domains'', JArray [JObject [(''dname'',
                   JString (join ''.'' (slice_from (split name CHR ''.'') (- 2))))]]),
              (''output_content_type'', JString ''json''),
              (''username'', json_of (username self)),
              (''password'', json_of (password self))])
        \<and> loads s = Some (JObject ?add)"
      using add input_data_create_params [of self name "[(''text'', JString content)]"]
      unfolding fst_create_params_add by blast
    show "\<exists>s. map_of (snd (create_params self name
               [(''record_type'', JString ''TXT''), (''content'', JString content)])) ''input_data''
          = Some s
        \<and> loads s = Some (JObject
             [(''record_type'', JString ''TXT''), (''content'', JString content),
              (''subdomain'', JString (join ''.'' (slice_to (split name CHR ''.'') (- 2)))),
              (''domains'', JArray [JObject [(''dname'',
                   JString (join ''.'' (slice_from (split name CHR ''.'') (- 2))))]]),
              (''output_content_type'', JString ''json''),
              (''username'', json_of (username self)),
              (''password'', json_of (password self))])
        \<and> loads s = Some (JObject ?del)"
      using del input_data_create_params [of self name
          "[(''record_type'', JString ''TXT''), (''content'', JString content)]"]
      unfolding fst_create_params_del by blast
  qed
qed

theorem input_data_round_trip_witness:
  "(\<exists>s. map_of (snd (create_params (get_regru_client (\<lambda>req. Inr http_200) {} sample_credentials)
               ''_acme-challenge.example.com'' [(''text'', JString ''token'')])) ''input_data'' = Some s
        \<and> loads s = Some (JObject
             [(''text'', JString ''token''),
              (''subdomain'', JString ''_acme-challenge''),
              (''domains'', JArray [JObject [(''dname'', JString ''example.com'')]]),
              (''output_content_type'', JString ''json''),
              (''username'', JString ''user''),
              (''password'', JString ''secret'')]))
   \<and> (\<exists>s. map_of (snd (create_params (get_regru_client (\<lambda>req. Inr http_200) {} sample_credentials)
               ''_acme-challenge.example.com''
               [(''record_type'', JString ''TXT''), (''content'', JString ''token'')])) ''input_data''
          = Some s
        \<and> loads s = Some (JObject
             [(''record_type'', JString ''TXT''), (''content'', JString ''token''),
              (''subdomain'', JString ''_acme-challenge''),
              (''domains'', JArray [JObject [(''dname'', JString ''example.com'')]]),
              (''output_content_type'', JString ''json''),
              (''username'', JString ''user''),
              (''password'', JString ''secret'')]))"
proof -
  have sp: "split ''_acme-challenge.example.com'' CHR ''.'' = [''_acme-challenge'', ''example'', ''com'']"
    by simp
  have u: "username (get_regru_client (\<lambda>req. Inr http_200) {} sample_credentials) = Some ''user''"
    and p: "password (get_regru_client (\<lambda>req. Inr http_200) {} sample_credentials) = Some ''secret''"
    by (simp_all add: get_regru_client_def RegRuClient_def sample_credentials_def)
  have st: "slice_to [''_acme-challenge'', ''example'', ''com''] (- 2) = [''_acme-challenge'']"
    and sf: "slice_from [''_acme-challenge'', ''example'', ''com''] (- 2) = [''example'', ''com'']"
    by (simp_all add: slice_to_def slice_from_def slice_bound_def)
  from input_data_round_trip [of "get_regru_client (\<lambda>req. Inr http_200) {} sample_credentials"
      "''_acme-challenge.example.com''" "''token''"]
  show ?thesis
    unfolding sp u p st sf by (elim conjE exE) simp
qed

end
